theory Spec2Isabelle
  imports Main "HOL-Library.Char_ord" "HOL-Library.List_Lexorder"
begin

section \<open>Go values shared by the three programs\<close>

text \<open>
  Go's \<open>string\<close> is a byte sequence and \<open>len\<close> counts bytes: \<^typ>\<open>string\<close>
  (a list of 8-bit \<^typ>\<open>char\<close>). Go's \<open>int\<close> is modelled by \<^typ>\<open>int\<close>: the
  code below only compares such values and adds one to an index (see \<open>setDynamic\<close>).
  A run-time panic is a value of \<open>go_panic\<close>, the last one a call of \<open>panic\<close>
  with a string. An \<open>error\<close> that is not nil is its message.
\<close>

datatype go_panic =
  SliceBoundsOutOfRange
| IndexOutOfRange
| NilPointerDereference
| PanicValue string

type_synonym error = string

text \<open>The slice expression \<open>s[lo:]\<close>: it panics unless \<open>0 \<le> lo \<le> len(s)\<close>.\<close>

definition slice_from :: "string \<Rightarrow> int \<Rightarrow> go_panic + string" where
  "slice_from s lo =
     (if lo < 0 \<or> int (length s) < lo then Inl SliceBoundsOutOfRange
      else Inr (drop (nat lo) s))"

text \<open>
  \<open>strings.Split(s, sep)\<close> for a one-byte separator: the pieces between the occurrences
  of the separator, a single empty piece for the empty string.
\<close>

fun Split :: "string \<Rightarrow> char \<Rightarrow> string list" where
  "Split [] sep = [[]]"
| "Split (c # cs) sep =
     (if c = sep then [] # Split cs sep
      else (case Split cs sep of [] \<Rightarrow> [[c]] | w # ws \<Rightarrow> (c # w) # ws))"

text \<open>\<open>strings.Join(elems, sep)\<close>.\<close>

fun Join :: "string list \<Rightarrow> string \<Rightarrow> string" where
  "Join [] sep = []"
| "Join [x] sep = x"
| "Join (x # y # ys) sep = x @ sep @ Join (y # ys) sep"

text \<open>\<open>strings.HasPrefix\<close> and \<open>strings.HasSuffix\<close>.\<close>

definition HasPrefix :: "string \<Rightarrow> string \<Rightarrow> bool" where
  "HasPrefix s prefix = (take (length prefix) s = prefix)"

definition HasSuffix :: "string \<Rightarrow> string \<Rightarrow> bool" where
  "HasSuffix s suffix =
     (length suffix \<le> length s \<and> drop (length s - length suffix) s = suffix)"

text \<open>\<open>strconv.Itoa\<close>, which is also the verb \<open>%d\<close> of package fmt.\<close>

fun decimal :: "nat \<Rightarrow> string" where
  "decimal n = (if n < 10 then [char_of (48 + n)] else decimal (n div 10) @ [char_of (48 + n mod 10)])"

definition Itoa :: "int \<Rightarrow> string" where
  "Itoa i = (if i < 0 then CHR ''-'' # decimal (nat (- i)) else decimal (nat i))"

subsection \<open>Paths (package path, and path/filepath with the separator \<open>/\<close>)\<close>

text \<open>
  \<open>path.Clean\<close>, element by element: empty elements and \<open>.\<close> are dropped,
  \<open>..\<close> removes the element before it when there is one that is not itself
  \<open>..\<close>; otherwise it is kept in a relative path and dropped in a rooted one. The
  elements kept so far are held in reverse.
\<close>

fun cleanElems :: "bool \<Rightarrow> string list \<Rightarrow> string list \<Rightarrow> string list" where
  "cleanElems rooted [] out = rev out"
| "cleanElems rooted (e # es) out =
     (if e = [] \<or> e = ''.'' then cleanElems rooted es out
      else if e = ''..'' then
        (case out of
           [] \<Rightarrow> cleanElems rooted es (if rooted then [] else [''..''])
         | e' # below \<Rightarrow>
             if e' = ''..'' then cleanElems rooted es (if rooted then out else ''..'' # out)
             else cleanElems rooted es below)
      else cleanElems rooted es (e # out))"

definition Clean :: "string \<Rightarrow> string" where
  "Clean p =
     (if p = [] then ''.''
      else
        (let rooted = (hd p = CHR ''/'');
             elems = cleanElems rooted (Split p CHR ''/'') []
         in if rooted then CHR ''/'' # Join elems ''/''
            else if elems = [] then ''.'' else Join elems ''/''))"

text \<open>\<open>path.Join(a, b)\<close>: empty elements are ignored and the result is cleaned.\<close>

definition path_Join :: "string \<Rightarrow> string \<Rightarrow> string" where
  "path_Join a b =
     (if a \<noteq> [] then Clean (a @ ''/'' @ b)
      else if b \<noteq> [] then Clean b
      else [])"

text \<open>
  \<open>filepath.Dir\<close>: the path up to its last separator, cleaned.
  \<open>filepath.Ext\<close>: the suffix of the last element from its last dot on.
  \<open>filepath.Base\<close>: the last element of the path, trailing separators removed
  first; \<open>.\<close> for the empty path and a single separator for a path of separators only.
  \<open>filepath.SplitList\<close>: the elements of a colon-separated list, none for the
  empty string.
\<close>

definition filepath_Dir :: "string \<Rightarrow> string" where
  "filepath_Dir p = Clean (rev (dropWhile (\<lambda>c. c \<noteq> CHR ''/'') (rev p)))"

definition filepath_Ext :: "string \<Rightarrow> string" where
  "filepath_Ext p =
     (let base = rev (takeWhile (\<lambda>c. c \<noteq> CHR ''/'') (rev p))
      in if CHR ''.'' \<in> set base
         then CHR ''.'' # rev (takeWhile (\<lambda>c. c \<noteq> CHR ''.'') (rev base))
         else [])"

definition filepath_Base :: "string \<Rightarrow> string" where
  "filepath_Base p =
     (if p = [] then ''.''
      else
        (let stripped = rev (dropWhile (\<lambda>c. c = CHR ''/'') (rev p));
             last_elem = rev (takeWhile (\<lambda>c. c \<noteq> CHR ''/'') (rev stripped))
         in if last_elem = [] then ''/'' else last_elem))"

definition SplitList :: "string \<Rightarrow> string list" where
  "SplitList p = (if p = [] then [] else Split p CHR '':'')"

section \<open>snapctl: metric list\<close>

text \<open>The fields of \<open>rbody.Metric\<close> and of its dynamic elements that snapctl reads.\<close>

record DynamicElement =
  Index :: int
  Name :: string
  ElemDescription :: string

record Metric =
  Namespace :: string
  Version :: int
  Dynamic :: bool
  DynamicElements :: "DynamicElement list"
  Unit :: string
  Description :: string

text \<open>
  The loop of \<open>getNamespace\<close>: \<open>slice[v.Index+1] = "[" + v.Name + "]"\<close> for each
  dynamic element in order. An index outside the slice panics. (With a 64-bit \<open>int\<close>
  the sum \<open>v.Index+1\<close> wraps only at the largest value, to a negative index, which
  panics as the unwrapped sum does here.)
\<close>

fun setDynamic :: "string list \<Rightarrow> DynamicElement list \<Rightarrow> go_panic + string list" where
  "setDynamic slice [] = Inr slice"
| "setDynamic slice (v # vs) =
     (if 0 \<le> Index v + 1 \<and> Index v + 1 < int (length slice)
      then setDynamic (slice[nat (Index v + 1) := ''['' @ Name v @ '']'']) vs
      else Inl IndexOutOfRange)"

definition getNamespace :: "Metric \<Rightarrow> go_panic + string" where
  "getNamespace mt =
     (if Dynamic mt then
        (case setDynamic (Split (Namespace mt) CHR ''/'') (DynamicElements mt) of
           Inl p \<Rightarrow> Inl p
         | Inr slice \<Rightarrow> Inr (Join slice ''/''))
      else Inr (Namespace mt))"

text \<open>
  The first statement group of \<open>listMetrics\<close>: the namespace the user gave, with the
  wildcard appended when it is missing. \<open>ns[len(ns)-2:]\<close> is evaluated first, whenever
  \<open>ns\<close> is not empty.
\<close>

definition normalizeNs :: "string \<Rightarrow> go_panic + string" where
  "normalizeNs ns =
     (if ns \<noteq> [] then
        (case slice_from ns (int (length ns) - 2) of
           Inl p \<Rightarrow> Inl p
         | Inr last2 \<Rightarrow>
             if last2 \<noteq> ''/*'' then
               (case slice_from ns (int (length ns) - 1) of
                  Inl p \<Rightarrow> Inl p
                | Inr last1 \<Rightarrow> if last1 = ''/'' then Inr (ns @ ''*'') else Inr (ns @ ''/*''))
             else Inr ns)
      else Inr ''/*'')"

text \<open>
  What \<open>listMetrics\<close> hands to \<open>printFields\<close> after the heading. A verbose row is
  the rendered namespace, the version, the unit and the description of one metric, in
  catalog order. A brief row is a namespace and the versions listed for it, joined with
  commas, the namespaces in the order of \<open>sort.Strings\<close> (bytewise). The metrics of
  the catalog are taken to be there (not nil).
\<close>

datatype listing =
  VerboseTable "(string \<times> int \<times> string \<times> string) list"
| BriefTable "(string \<times> string) list"

datatype lm_outcome =
  LM_Panic go_panic
| LM_Exit1 error
| LM_Printed listing

fun verboseRows :: "Metric list \<Rightarrow> go_panic + (string \<times> int \<times> string \<times> string) list" where
  "verboseRows [] = Inr []"
| "verboseRows (mt # mts) =
     (case getNamespace mt of
        Inl p \<Rightarrow> Inl p
      | Inr namespace \<Rightarrow>
          (case verboseRows mts of
             Inl p \<Rightarrow> Inl p
           | Inr rows \<Rightarrow> Inr ((namespace, Version mt, Unit mt, Description mt) # rows)))"

definition briefRows :: "Metric list \<Rightarrow> (string \<times> string) list" where
  "briefRows catalog =
     map (\<lambda>k. (k, Join (map (\<lambda>mt. Itoa (Version mt))
                          (filter (\<lambda>mt. Namespace mt = k) catalog)) '',''))
       (sort (remdups (map Namespace catalog)))"

text \<open>
  \<open>listMetrics\<close>, with the three values read from the command line and the client's
  \<open>FetchMetrics\<close> as arguments. \<open>FetchMetrics\<close> returns its error or its catalog.
  \<open>fetchAndPrint\<close> is the function from the call of \<open>FetchMetrics\<close> on.
\<close>

definition fetchAndPrint ::
  "(string \<Rightarrow> int \<Rightarrow> error + Metric list) \<Rightarrow> string \<Rightarrow> int \<Rightarrow> bool \<Rightarrow> lm_outcome" where
  "fetchAndPrint FetchMetrics ns ver verbose =
     (case FetchMetrics ns ver of
        Inl err \<Rightarrow> LM_Exit1 err
      | Inr catalog \<Rightarrow>
          if verbose then
            (case verboseRows catalog of
               Inl p \<Rightarrow> LM_Panic p
             | Inr rows \<Rightarrow> LM_Printed (VerboseTable rows))
          else LM_Printed (BriefTable (briefRows catalog)))"

definition listMetrics ::
  "(string \<Rightarrow> int \<Rightarrow> error + Metric list) \<Rightarrow> string \<Rightarrow> int \<Rightarrow> bool \<Rightarrow> lm_outcome" where
  "listMetrics FetchMetrics ns ver verbose =
     (case normalizeNs ns of
        Inl p \<Rightarrow> LM_Panic p
      | Inr ns' \<Rightarrow> fetchAndPrint FetchMetrics ns' ver verbose)"

section \<open>snapd: the number of cores\<close>

text \<open>
  The part of the Go runtime that \<open>setMaxProcs\<close> uses. \<open>runtime.GOMAXPROCS(n)\<close>
  changes the setting only when \<open>n\<close> is at least 1.
\<close>

record runtime =
  NumCPU :: int
  maxprocs :: int

definition GOMAXPROCS :: "int \<Rightarrow> runtime \<Rightarrow> runtime" where
  "GOMAXPROCS n rt = (if n < 1 then rt else rt\<lparr>maxprocs := n\<rparr>)"

datatype log_level = LogInfo | LogWarning | LogError

text \<open>
  \<open>setMaxProcs\<close>: the log lines it writes (level and message, without the fields),
  and the runtime after the call. The last warning is written when the runtime does not
  report the value just set.
\<close>

definition setMaxProcs :: "int \<Rightarrow> runtime \<Rightarrow> (log_level \<times> string) list \<times> runtime" where
  "setMaxProcs maxProcs rt =
     (let numProcs = NumCPU rt;
          (logs, maxProcs') =
            (if maxProcs \<le> 0 then
               ([(LogError, ''Trying to set GOMAXPROCS to an invalid value''),
                 (LogWarning, ''Setting GOMAXPROCS to 1'')], 1)
             else if maxProcs \<le> numProcs then ([], maxProcs)
             else
               ([(LogError, ''Trying to set GOMAXPROCS larger than number of CPUs available on system''),
                 (LogWarning, ''Setting GOMAXPROCS to number of CPUs on host'')], numProcs));
          rt' = GOMAXPROCS maxProcs' rt;
          actualNumProcs = maxprocs rt'
      in (logs @ [(LogInfo, ''setting GOMAXPROCS to: '' @ Itoa maxProcs' @ '' core(s)'')]
            @ (if actualNumProcs \<noteq> maxProcs' then [(LogWarning, ''not using given maxprocs'')] else []),
          rt'))"

section \<open>snapd: flags and startup\<close>

text \<open>
  The flags of the cli library, with the fields snapd sets. A flag without an
  environment variable has the empty name there.
\<close>

record IntFlag =
  IntName :: string
  IntUsage :: string
  IntValue :: int
  IntEnvVar :: string

record StringFlag =
  StringName :: string
  StringUsage :: string
  StringValue :: string
  StringEnvVar :: string

record BoolFlag =
  BoolName :: string
  BoolUsage :: string

definition flAPIDisabled :: BoolFlag where
  "flAPIDisabled = \<lparr>BoolName = ''disable-api, d'', BoolUsage = ''Disable the agent REST API''\<rparr>"

definition flAPIPort :: IntFlag where
  "flAPIPort =
     \<lparr>IntName = ''api-port,  p'', IntUsage = ''API port (Default: 8181)'',
      IntValue = 8181, IntEnvVar = []\<rparr>"

definition flMaxProcs :: IntFlag where
  "flMaxProcs =
     \<lparr>IntName = ''max-procs, c'',
      IntUsage = ''Set max cores to use for snap Agent. Default is 1 core.'',
      IntValue = 1, IntEnvVar = ''GOMAXPROCS''\<rparr>"

definition flNumberOfPLs :: IntFlag where
  "flNumberOfPLs =
     \<lparr>IntName = ''max-running-plugins, m'',
      IntUsage = ''The maximum number of instances of a loaded plugin to run'',
      IntValue = 3, IntEnvVar = ''SNAP_MAX_PLUGINS''\<rparr>"

definition flLogPath :: StringFlag where
  "flLogPath =
     \<lparr>StringName = ''log-path, o'', StringUsage = ''Path for logs. Empty path logs to stdout.'',
      StringValue = [], StringEnvVar = ''SNAP_LOG_PATH''\<rparr>"

definition flLogLevel :: IntFlag where
  "flLogLevel =
     \<lparr>IntName = ''log-level, l'', IntUsage = ''1-5 (Debug, Info, Warning, Error, Fatal)'',
      IntValue = 3, IntEnvVar = ''SNAP_LOG_LEVEL''\<rparr>"

definition flPluginVersion :: StringFlag where
  "flPluginVersion =
     \<lparr>StringName = ''auto-discover, a'', StringUsage = ''Auto discover paths separated by colons.'',
      StringValue = [], StringEnvVar = ''SNAP_AUTOLOAD_PATH''\<rparr>"

definition flPluginTrust :: IntFlag where
  "flPluginTrust =
     \<lparr>IntName = ''plugin-trust, t'', IntUsage = ''0-2 (Disabled, Enabled, Warning)'',
      IntValue = 1, IntEnvVar = ''SNAP_TRUST_LEVEL''\<rparr>"

definition flkeyringPaths :: StringFlag where
  "flkeyringPaths =
     \<lparr>StringName = ''keyring-files, k'',
      StringUsage = ''Keyring files for signing verification separated by colons'',
      StringValue = [], StringEnvVar = ''SNAP_KEYRING_FILES''\<rparr>"

definition flCache :: StringFlag where
  "flCache =
     \<lparr>StringName = ''cache-expiration'',
      StringUsage = ''The time limit for which a metric cache entry is valid'',
      StringValue = ''500ms'', StringEnvVar = ''SNAP_CACHE_EXPIRATION''\<rparr>"

definition flConfig :: StringFlag where
  "flConfig =
     \<lparr>StringName = ''config'', StringUsage = ''A path to a config file'',
      StringValue = [], StringEnvVar = []\<rparr>"

definition flRestHttps :: BoolFlag where
  "flRestHttps = \<lparr>BoolName = ''rest-https'', BoolUsage = ''start snap's API as https''\<rparr>"

definition flRestCert :: StringFlag where
  "flRestCert =
     \<lparr>StringName = ''rest-cert'',
      StringUsage = ''A path to a certificate to use for HTTPS deployment of snap's REST API'',
      StringValue = [], StringEnvVar = []\<rparr>"

definition flRestKey :: StringFlag where
  "flRestKey =
     \<lparr>StringName = ''rest-key'',
      StringUsage = ''A path to a key file to use for HTTPS deployment of snap's REST API'',
      StringValue = [], StringEnvVar = []\<rparr>"

definition defaultQueueSize :: nat where
  "defaultQueueSize = 25"

definition defaultPoolSize :: nat where
  "defaultPoolSize = 4"

text \<open>
  What the cli library has parsed when it calls \<open>action\<close>: the values given on the
  command line, by the name of the flag that declares them, and the environment: the
  variables that hold an integer, and those that hold a non-empty string. The flag
  \<open>tribe\<close> is declared by the tribe package; the other tribe flags are only handed to
  \<open>tribe.DefaultConfig\<close>.
\<close>

record cliContext =
  cmdInt :: "string \<rightharpoonup> int"
  cmdString :: "string \<rightharpoonup> string"
  cmdBool :: "string \<Rightarrow> bool"
  envInt :: "string \<rightharpoonup> int"
  envString :: "string \<rightharpoonup> string"
  tribe :: bool

text \<open>
  \<open>ctx.Int\<close>, \<open>ctx.String\<close> and \<open>ctx.Bool\<close> for the flag that declares the name
  asked for: the command line first, then the flag's environment variable if it names
  one, then the flag's \<open>Value\<close>.
\<close>

definition ctx_Int :: "cliContext \<Rightarrow> IntFlag \<Rightarrow> int" where
  "ctx_Int ctx fl =
     (case cmdInt ctx (IntName fl) of
        Some v \<Rightarrow> v
      | None \<Rightarrow>
          if IntEnvVar fl \<noteq> [] then
            (case envInt ctx (IntEnvVar fl) of Some v \<Rightarrow> v | None \<Rightarrow> IntValue fl)
          else IntValue fl)"

definition ctx_String :: "cliContext \<Rightarrow> StringFlag \<Rightarrow> string" where
  "ctx_String ctx fl =
     (case cmdString ctx (StringName fl) of
        Some v \<Rightarrow> v
      | None \<Rightarrow>
          if StringEnvVar fl \<noteq> [] then
            (case envString ctx (StringEnvVar fl) of Some v \<Rightarrow> v | None \<Rightarrow> StringValue fl)
          else StringValue fl)"

definition ctx_Bool :: "cliContext \<Rightarrow> BoolFlag \<Rightarrow> bool" where
  "ctx_Bool ctx fl = cmdBool ctx (BoolName fl)"

text \<open>
  The machine snapd starts on, as far as \<open>action\<close> asks it: the file system
  (\<open>Stat\<close> tells whether the path is a directory, \<open>ReadDir\<close> gives names with that
  flag), \<open>time.ParseDuration\<close> (nanoseconds), \<open>json.Unmarshal\<close> of the
  configuration file, \<open>Start\<close> of each module, \<open>tribe.New\<close> and \<open>rest.New\<close>.
  \<open>AutoLoad\<close> stands for the three calls on one discovered file
  (\<open>core.NewRequestedPlugin\<close>, \<open>ReadSignatureFile\<close>, \<open>Load\<close>): their errors are
  only logged, so it tells no more than whether they return (the second and third are
  also made on the nil plugin of a failed first).
\<close>

datatype module = Control | Scheduler | Tribe

record machine =
  Stat :: "string \<Rightarrow> error + bool"
  OpenFile :: "string \<Rightarrow> error option"
  Open :: "string \<Rightarrow> error option"
  ReadFile :: "string \<Rightarrow> error + string"
  ReadDir :: "string \<Rightarrow> error + (string \<times> bool) list"
  Abs :: "string \<Rightarrow> error + string"
  ParseDuration :: "string \<Rightarrow> error + int"
  Unmarshal :: "string \<Rightarrow> error option"
  Start :: "module \<Rightarrow> error option"
  tribe_New :: "error option"
  rest_New :: "bool \<Rightarrow> string \<Rightarrow> string \<Rightarrow> error option"
  AutoLoad :: "string \<Rightarrow> bool"
  boot_runtime :: runtime

datatype PluginControlOpt =
  MaxRunningPlugins int
| CacheExpiration int
| OptSetConfig string

datatype SchedulerOpt =
  CollectQSizeOption nat
| CollectWkrSizeOption nat
| PublishQSizeOption nat
| PublishWkrSizeOption nat
| ProcessQSizeOption nat
| ProcessWkrSizeOption nat

datatype Level = DebugLevel | InfoLevel | WarnLevel | ErrorLevel | FatalLevel

text \<open>
  The daemon once \<open>action\<close> has reached \<open>select {}\<close>: what the control and scheduler
  modules were built with, the modules started, the trust level and keyring files given
  to the control module, the discovered files handed to it, the port of the REST API if
  it was started, the log level, and the runtime.
\<close>

record daemon =
  control_opts :: "PluginControlOpt list"
  scheduler_opts :: "SchedulerOpt list"
  core_modules :: "module list"
  trust_level :: int
  keyring_files :: "string list"
  autodiscover_paths :: "string list"
  autoloaded :: "string list"
  api_port :: "int option"
  log_level_set :: Level
  go_runtime :: runtime

text \<open>
  How \<open>action\<close> ends: \<open>log.Fatal\<close> (the message, then exit status 1), a panic, or
  the daemon serving for ever.
\<close>

datatype outcome =
  Fatal string
| Panicked go_panic
| Serving daemon

definition getLevel :: "int \<Rightarrow> go_panic + Level" where
  "getLevel i =
     (if i = 1 then Inr DebugLevel
      else if i = 2 then Inr InfoLevel
      else if i = 3 then Inr WarnLevel
      else if i = 4 then Inr ErrorLevel
      else if i = 5 then Inr FatalLevel
      else Inl (PanicValue ''bad level''))"

text \<open>\<open>validateLevelSettings\<close>: the message of its \<open>Fatal\<close>, if any.\<close>

definition validateLevelSettings :: "int \<Rightarrow> int \<Rightarrow> string option" where
  "validateLevelSettings logLevel pluginTrust =
     (if logLevel < 1 \<or> logLevel > 5 then Some ''log level was invalid (needs: 1-5)''
      else if pluginTrust < 0 \<or> pluginTrust > 2 then Some ''Plugin trust was invalid (needs: 0-2)''
      else None)"

text \<open>The loop that starts the modules: the first error ends it.\<close>

fun startModules :: "machine \<Rightarrow> module list \<Rightarrow> string option" where
  "startModules m [] = None"
| "startModules m (x # xs) =
     (case Start m x of
        Some err \<Rightarrow> Some ''error starting module''
      | None \<Rightarrow> startModules m xs)"

text \<open>
  The keyring files of one directory: the entries that are not directories and end in
  \<open>.gpg\<close>, \<open>.pub\<close> or \<open>.pubring\<close>, unless the directory cannot be opened (a
  warning).
\<close>

fun keyringDir :: "machine \<Rightarrow> string \<Rightarrow> (string \<times> bool) list \<Rightarrow> string list" where
  "keyringDir m keyringPath [] = []"
| "keyringDir m keyringPath ((name, isDir) # files) =
     (if isDir then keyringDir m keyringPath files
      else if HasSuffix name ''.gpg'' \<or> HasSuffix name ''.pub'' \<or> HasSuffix name ''.pubring'' then
        (case Open m keyringPath of
           Some err \<Rightarrow> keyringDir m keyringPath files
         | None \<Rightarrow> (keyringPath @ ''/'' @ name) # keyringDir m keyringPath files)
      else keyringDir m keyringPath files)"

text \<open>
  The loop over the keyring paths: the message of the first \<open>Fatal\<close>, or the files
  given to \<open>SetKeyringFile\<close>, in order.
\<close>

fun addKeyrings :: "machine \<Rightarrow> string list \<Rightarrow> string + string list" where
  "addKeyrings m [] = Inr []"
| "addKeyrings m (k # ks) =
     (case Abs m k of
        Inl err \<Rightarrow> Inl ''Unable to determine absolute path to keyring file''
      | Inr keyringPath \<Rightarrow>
          (case Stat m keyringPath of
             Inl err \<Rightarrow> Inl ''bad keyring file''
           | Inr isDir \<Rightarrow>
               if isDir then
                 (case ReadDir m keyringPath of
                    Inl err \<Rightarrow> Inl err
                  | Inr files \<Rightarrow>
                      if files = [] then
                        Inl (''given keyring path ['' @ keyringPath @ ''] is an empty directory!'')
                      else
                        (case addKeyrings m ks of
                           Inl msg \<Rightarrow> Inl msg
                         | Inr others \<Rightarrow> Inr (keyringDir m keyringPath files @ others)))
               else
                 (case Open m keyringPath of
                    Some err \<Rightarrow> Inl ''unable to open keyring file.''
                  | None \<Rightarrow>
                      (case addKeyrings m ks of
                         Inl msg \<Rightarrow> Inl msg
                       | Inr others \<Rightarrow> Inr (keyringPath # others)))))"

text \<open>
  Auto discovery. In one directory, every entry that is not a directory and ends in
  \<open>.aci\<close> or does not end in \<open>.asc\<close> is handed to the control module.
\<close>

fun autoloadDir :: "machine \<Rightarrow> string \<Rightarrow> (string \<times> bool) list \<Rightarrow> go_panic + string list" where
  "autoloadDir m fullPath [] = Inr []"
| "autoloadDir m fullPath ((name, isDir) # files) =
     (if isDir then autoloadDir m fullPath files
      else if HasSuffix name ''.aci'' \<or> \<not> HasSuffix name ''.asc'' then
        (if AutoLoad m (path_Join fullPath name) then
           (case autoloadDir m fullPath files of
              Inl p \<Rightarrow> Inl p
            | Inr others \<Rightarrow> Inr (path_Join fullPath name # others))
         else Inl NilPointerDereference)
      else autoloadDir m fullPath files)"

fun autoload :: "machine \<Rightarrow> string list \<Rightarrow> outcome + string list" where
  "autoload m [] = Inr []"
| "autoload m (p # ps) =
     (case Abs m p of
        Inl err \<Rightarrow> Inl (Fatal err)
      | Inr fullPath \<Rightarrow>
          (case ReadDir m fullPath of
             Inl err \<Rightarrow> Inl (Fatal err)
           | Inr files \<Rightarrow>
               (case autoloadDir m fullPath files of
                  Inl p \<Rightarrow> Inl (Panicked p)
                | Inr loaded \<Rightarrow>
                    (case autoload m ps of
                       Inl out \<Rightarrow> Inl out
                     | Inr others \<Rightarrow> Inr (loaded @ others)))))"

text \<open>The first step of \<open>action\<close>: the log path, if one is given.\<close>

definition openLog :: "machine \<Rightarrow> string \<Rightarrow> string option" where
  "openLog m logPath =
     (if logPath \<noteq> [] then
        (case Stat m logPath of
           Inl err \<Rightarrow> Some err
         | Inr isDir \<Rightarrow>
             if \<not> isDir then Some ''log path provided must be a directory''
             else
               (case OpenFile m (logPath @ ''/snap.log'') of
                  Some err \<Rightarrow> Some err
                | None \<Rightarrow> None))
      else None)"

text \<open>The options of the control module that come from the configuration file.\<close>

definition readConfig :: "machine \<Rightarrow> string \<Rightarrow> string + PluginControlOpt list" where
  "readConfig m config =
     (if config \<noteq> [] then
        (case ReadFile m config of
           Inl err \<Rightarrow> Inl ''unable to read config''
         | Inr b \<Rightarrow>
             (case Unmarshal m b of
                Some err \<Rightarrow> Inl ''invalid config''
              | None \<Rightarrow> Inr [OptSetConfig b]))
      else Inr [])"

text \<open>The keyring step: nothing to do when trust is off.\<close>

definition keyringStep :: "machine \<Rightarrow> int \<Rightarrow> string \<Rightarrow> string + string list" where
  "keyringStep m pluginTrust keyringPaths =
     (if pluginTrust > 0 then
        (let keyrings = SplitList keyringPaths
         in if length keyrings = 0
            then Inl ''need keyring file when trust is on (--keyring-file or -k)''
            else addKeyrings m keyrings)
      else Inr [])"

text \<open>
  \<open>action\<close>, in the order of the source: log path, cache expiration, the number of
  cores, the level settings, the configuration, the modules (tribe if enabled), their
  start, the trust level and keyrings, auto discovery, the REST API, the log level.
  When \<open>tribe.New\<close> fails, \<open>printErrorAndExit\<close> is called with the name of the
  tribe it returned, taken to be available. What happens on a signal, or on an error
  of the REST server once it runs, comes after \<open>action\<close> has reached \<open>select {}\<close>
  and is not part of this function.
\<close>

definition action :: "machine \<Rightarrow> cliContext \<Rightarrow> outcome" where
  "action m ctx =
     (let logPath = ctx_String ctx flLogPath;
          logLevel = ctx_Int ctx flLogLevel;
          maxProcs = ctx_Int ctx flMaxProcs;
          disableAPI = ctx_Bool ctx flAPIDisabled;
          apiPort = ctx_Int ctx flAPIPort;
          autodiscoverPath = ctx_String ctx flPluginVersion;
          maxRunning = ctx_Int ctx flNumberOfPLs;
          pluginTrust = ctx_Int ctx flPluginTrust;
          keyringPaths = ctx_String ctx flkeyringPaths;
          cachestr = ctx_String ctx flCache;
          isTribeEnabled = tribe ctx;
          config = ctx_String ctx flConfig;
          restHttps = ctx_Bool ctx flRestHttps;
          restKey = ctx_String ctx flRestKey;
          restCert = ctx_String ctx flRestCert
      in
      case openLog m logPath of
        Some msg \<Rightarrow> Fatal msg
      | None \<Rightarrow>
      (case ParseDuration m cachestr of
        Inl err \<Rightarrow> Fatal (''invalid cache-expiration format: '' @ cachestr)
      | Inr cache \<Rightarrow>
      (let rt' = snd (setMaxProcs maxProcs (boot_runtime m)) in
       case validateLevelSettings logLevel pluginTrust of
        Some msg \<Rightarrow> Fatal msg
      | None \<Rightarrow>
      (case readConfig m config of
        Inl msg \<Rightarrow> Fatal msg
      | Inr cfgOpts \<Rightarrow>
      (let controlOpts = [MaxRunningPlugins maxRunning, CacheExpiration cache] @ cfgOpts;
           schedulerOpts =
             [CollectQSizeOption defaultQueueSize, CollectWkrSizeOption defaultPoolSize,
              PublishQSizeOption defaultQueueSize, PublishWkrSizeOption defaultPoolSize,
              ProcessQSizeOption defaultQueueSize, ProcessWkrSizeOption defaultPoolSize]
       in
       if isTribeEnabled \<and> tribe_New m \<noteq> None then Fatal ''error starting module''
       else
      (let coreModules = [Control, Scheduler] @ (if isTribeEnabled then [Tribe] else []) in
       case startModules m coreModules of
        Some msg \<Rightarrow> Fatal msg
      | None \<Rightarrow>
      (case keyringStep m pluginTrust keyringPaths of
        Inl msg \<Rightarrow> Fatal msg
      | Inr keyringFiles \<Rightarrow>
      (case (if autodiscoverPath \<noteq> [] then autoload m (SplitList autodiscoverPath) else Inr []) of
        Inl out \<Rightarrow> out
      | Inr loaded \<Rightarrow>
      (case (if \<not> disableAPI then rest_New m restHttps restCert restKey else None) of
        Some err \<Rightarrow> Fatal err
      | None \<Rightarrow>
      (case getLevel logLevel of
        Inl p \<Rightarrow> Panicked p
      | Inr level \<Rightarrow>
         Serving
           \<lparr>control_opts = controlOpts,
            scheduler_opts = schedulerOpts,
            core_modules = coreModules,
            trust_level = pluginTrust,
            keyring_files = keyringFiles,
            autodiscover_paths = (if autodiscoverPath \<noteq> [] then SplitList autodiscoverPath else []),
            autoloaded = loaded,
            api_port = (if disableAPI then None else Some apiPort),
            log_level_set = level,
            go_runtime = rt'\<rparr>))))))))))"

section \<open>REST: the plugin handlers\<close>

subsection \<open>Values\<close>

text \<open>
  \<open>strconv.ParseInt(s, 10, 0)\<close> where \<open>int\<close> has 64 bits: an optional sign, then
  decimal digits only. The value returned with a syntax error is 0, with a range error
  the nearest bound. \<open>ParseUint\<close> has already cut the magnitude at \<open>2^64 - 1\<close>.
\<close>

datatype NumError = ErrSyntax | ErrRange

definition isDigit :: "char \<Rightarrow> bool" where
  "isDigit c = (CHR ''0'' \<le> c \<and> c \<le> CHR ''9'')"

fun digitsValue :: "string \<Rightarrow> nat \<Rightarrow> nat" where
  "digitsValue [] acc = acc"
| "digitsValue (c # cs) acc = digitsValue cs (10 * acc + (of_char c - 48))"

definition ParseInt :: "string \<Rightarrow> int \<times> NumError option" where
  "ParseInt s =
     (if s = [] then (0, Some ErrSyntax)
      else
        (let neg = (hd s = CHR ''-'');
             ds = (if hd s = CHR ''+'' \<or> hd s = CHR ''-'' then tl s else s)
         in if ds = [] \<or> \<not> list_all isDigit ds then (0, Some ErrSyntax)
            else
              (let un = min (int (digitsValue ds 0)) (2 ^ 64 - 1)
               in if \<not> neg \<and> un \<ge> 2 ^ 63 then (2 ^ 63 - 1, Some ErrRange)
                  else if neg \<and> un > 2 ^ 63 then (- (2 ^ 63), Some ErrRange)
                  else (if neg then - un else un, None))))"

type_synonym bytes = string

definition PluginAlreadyLoaded :: string where
  "PluginAlreadyLoaded = ''plugin is already loaded''"

text \<open>The struct \<open>plugin\<close> of the handlers, and what they read of a cataloged plugin.\<close>

record plugin =
  name :: string
  version :: int
  pluginType :: string

record CatalogedPlugin =
  PluginName :: string
  PluginVersion :: int
  TypeName :: string
  IsSigned :: bool
  Status :: string
  LoadedTimestamp :: int

text \<open>
  A requested plugin (package core): the path it was made from, the checksum read from
  that file, and the signature set on it (nil when none is).
\<close>

record RequestedPlugin =
  Path :: string
  CheckSum :: bytes
  Signature :: "bytes option"

text \<open>
  A snap error (package serror) is a message with fields; \<open>SetFields\<close> replaces the
  fields. The handlers fill them from a map of three entries.
\<close>

datatype field = FieldString string | FieldInt int

record SnapError =
  se_message :: string
  se_fields :: "(string \<times> field) list"

text \<open>The response bodies (package rbody) the handlers build themselves.\<close>

record rbody_Error =
  ErrorMessage :: string
  ErrorFields :: "(string \<times> field) list"

record LoadedPlugin =
  lp_Name :: string
  lp_Version :: int
  lp_Type :: string
  lp_Signed :: bool
  lp_Status :: string
  lp_LoadedTimestamp :: int
  lp_Href :: string

record PluginUnloaded =
  pu_Name :: string
  pu_Version :: int
  pu_Type :: string

datatype Body =
  ErrorBody rbody_Error
| PluginsLoadedBody "LoadedPlugin list"
| PluginUnloadedBody PluginUnloaded
| PluginsSwappedBody PluginUnloaded "LoadedPlugin list"

subsection \<open>The request and the server's surroundings\<close>

text \<open>
  One part of a multipart body: the \<open>filename\<close> parameter of its
  \<open>Content-Disposition\<close> header (empty when there is none), what \<open>ioutil.ReadAll\<close>
  gives for it, and what reading it through \<open>gzip.NewReader\<close> gives. \<open>NextPart\<close>
  yields the elements of \<open>Parts\<close> in order, then \<open>io.EOF\<close>.
\<close>

datatype gzip_read = GzipHeaderError error | GzipReadError error | GzipData bytes

record Part =
  disposition_filename :: string
  Plain :: "error + bytes"
  Gunzip :: gzip_read

text \<open>
  \<open>p.FileName()\<close> of package mime/multipart (Go 1.17 and later): the \<open>filename\<close>
  parameter without its directory information, which the method removes with
  \<open>filepath.Base\<close>; empty when the parameter is.
\<close>

definition FileName :: "Part \<Rightarrow> string" where
  "FileName p =
     (if disposition_filename p = [] then [] else filepath_Base (disposition_filename p))"

datatype next_part = NextPartError error | NextPart Part

text \<open>
  The request: \<open>mime.ParseMediaType\<close> of its content type (an error or the media
  type), the header \<open>Plugin-Compression\<close>, the parts, the host and the parameters of the
  route.
\<close>

record request =
  ContentType :: "error + string"
  PluginCompression :: string
  Parts :: "next_part list"
  Host :: string
  ByName :: "string \<Rightarrow> string"

text \<open>
  What the handlers call outside these sources. The file system calls return their
  error, if any. \<open>NewRequestedPlugin\<close> fails or has read the checksum of the file at
  the path. \<open>Load\<close>, \<open>Unload\<close> and \<open>SwapPlugins\<close> are the metric manager's.
  \<open>FromError\<close>, \<open>FromSnapError\<close> and \<open>ResponseBodyMessage\<close> are package rbody's;
  \<open>FromError_nil\<close> is \<open>FromError\<close> applied to a nil error, which returns a body or
  panics.
\<close>

record server =
  protocolPrefix :: string
  windows :: bool
  TempDir :: "error + string"
  Create :: "string \<Rightarrow> error option"
  Write :: "string \<Rightarrow> bytes \<Rightarrow> error option"
  Chmod :: "string \<Rightarrow> nat \<Rightarrow> error option"
  Sum256 :: "bytes \<Rightarrow> bytes"
  NewRequestedPlugin :: "string \<Rightarrow> error + bytes"
  Load :: "RequestedPlugin \<Rightarrow> error + CatalogedPlugin"
  Unload :: "plugin \<Rightarrow> SnapError + CatalogedPlugin"
  SwapPlugins :: "RequestedPlugin \<Rightarrow> plugin \<Rightarrow> SnapError + CatalogedPlugin \<times> CatalogedPlugin"
  FromError :: "error \<Rightarrow> rbody_Error"
  FromError_nil :: "go_panic + rbody_Error"
  FromSnapError :: "SnapError \<Rightarrow> rbody_Error"
  ResponseBodyMessage :: "rbody_Error \<Rightarrow> string"

text \<open>
  What a handler does, in order: the file system calls that succeeded, the call of
  \<open>os.RemoveAll\<close> (its error is only logged), the response, a panic. Log lines are
  left out.
\<close>

datatype effect =
  MkTempDir string
| CreateFile string
| WriteBytes string bytes
| ChmodFile string nat
| CloseFile string
| RemoveAllDir string
| Respond nat Body
| Panic go_panic

subsection \<open>writeFile\<close>

definition writeFile :: "server \<Rightarrow> string \<Rightarrow> bytes \<Rightarrow> effect list \<times> (error + string)" where
  "writeFile s filename b =
     (case TempDir s of
        Inl err \<Rightarrow> ([], Inl err)
      | Inr dir \<Rightarrow>
          (let f = path_Join dir filename in
           case Create s f of
             Some err \<Rightarrow> ([MkTempDir dir], Inl err)
           | None \<Rightarrow>
               (case Write s f b of
                  Some err \<Rightarrow> ([MkTempDir dir, CreateFile f], Inl err)
                | None \<Rightarrow>
                    if \<not> windows s then
                      (case Chmod s f 448 of
                         Some err \<Rightarrow> ([MkTempDir dir, CreateFile f, WriteBytes f b], Inl err)
                       | None \<Rightarrow>
                           ([MkTempDir dir, CreateFile f, WriteBytes f b, ChmodFile f 448,
                             CloseFile f], Inr f))
                    else ([MkTempDir dir, CreateFile f, WriteBytes f b, CloseFile f], Inr f))))"

subsection \<open>The upload loop of loadPlugin and swapPlugins\<close>

text \<open>
  The bytes of one part. When \<open>gzip.NewReader\<close> fails its reader is nil, and the
  \<open>Close\<close> deferred on it before the error check panics when the handler returns: the
  flag in the error case says so.
\<close>

definition readBody :: "string \<Rightarrow> Part \<Rightarrow> (error \<times> bool) + bytes" where
  "readBody compression p =
     (if compression = ''gzip'' then
        (case Gunzip p of
           GzipHeaderError err \<Rightarrow> Inl (err, True)
         | GzipReadError err \<Rightarrow> Inl (err, False)
         | GzipData b \<Rightarrow> Inr b)
      else
        (case Plain p of
           Inl err \<Rightarrow> Inl (err, False)
         | Inr b \<Rightarrow> Inr b))"

text \<open>The variables the loop sets: \<open>pluginPath\<close>, \<open>signature\<close>, \<open>checkSum\<close>.\<close>

record upload =
  pluginPath :: string
  signature :: "bytes option"
  checkSum :: bytes

definition noUpload :: upload where
  "noUpload = \<lparr>pluginPath = [], signature = None, checkSum = replicate 32 (CHR 0x00)\<rparr>"

definition respondError :: "server \<Rightarrow> nat \<Rightarrow> error \<Rightarrow> effect list" where
  "respondError s code err = [Respond code (ErrorBody (FromError s err))]"

text \<open>
  The loop over the parts, written once: the two handlers hold the same text. It ends
  with the effects of a handler that has returned (\<open>Inl\<close>), or at \<open>io.EOF\<close> with the
  variables and the effects so far. \<open>i\<close> counts the parts read.
\<close>

fun readParts ::
  "server \<Rightarrow> string \<Rightarrow> next_part list \<Rightarrow> nat \<Rightarrow> upload \<Rightarrow> effect list
    \<Rightarrow> effect list + upload \<times> effect list" where
  "readParts s compression [] i up effs = Inr (up, effs)"
| "readParts s compression (NextPartError err # rest) i up effs =
     Inl (effs @ respondError s 500 err)"
| "readParts s compression (NextPart p # rest) i up effs =
     (case readBody compression p of
        Inl (err, nilReader) \<Rightarrow>
          Inl (effs @ respondError s 500 err
                 @ (if nilReader then [Panic NilPointerDereference] else []))
      | Inr b \<Rightarrow>
          if i = 0 then
            (if filepath_Ext (FileName p) = ''.asc'' then
               Inl (effs @ respondError s 500
                      ''Error: first file passed to load plugin api can not be signature file'')
             else
               (case writeFile s (FileName p) b of
                  (written, Inl err) \<Rightarrow> Inl (effs @ written @ respondError s 500 err)
                | (written, Inr f) \<Rightarrow>
                    readParts s compression rest (i + 1)
                      (up\<lparr>pluginPath := f, checkSum := Sum256 s b\<rparr>) (effs @ written)))
          else if i = 1 then
            (if filepath_Ext (FileName p) = ''.asc'' then
               readParts s compression rest (i + 1) (up\<lparr>signature := Some b\<rparr>) effs
             else
               Inl (effs @ respondError s 500
                      ''Error: second file passed was not a signature file''))
          else if i = 2 then
            Inl (effs @ respondError s 500
                   ''Error: More than two files passed to the load plugin api'')
          else readParts s compression rest (i + 1) up effs)"

text \<open>
  After the loop: the requested plugin is made from \<open>pluginPath\<close>, its checksum is
  compared with the one of the bytes received, and the signature is set.
\<close>

definition requestPlugin :: "server \<Rightarrow> upload \<Rightarrow> effect list + RequestedPlugin" where
  "requestPlugin s up =
     (case NewRequestedPlugin s (pluginPath up) of
        Inl err \<Rightarrow> Inl (respondError s 500 err)
      | Inr onDisk \<Rightarrow>
          if onDisk \<noteq> checkSum up then
            Inl (respondError s 500 ''Error: CheckSum mismatch on requested plugin to load'')
          else Inr \<lparr>Path = pluginPath up, CheckSum = onDisk, Signature = signature up\<rparr>)"

subsection \<open>The handlers\<close>

definition pluginURI :: "server \<Rightarrow> string \<Rightarrow> string \<Rightarrow> string \<Rightarrow> int \<Rightarrow> string" where
  "pluginURI s host typeName nm ver =
     protocolPrefix s @ ''://'' @ host @ ''/v1/plugins/'' @ typeName @ ''/'' @ nm @ ''/'' @ Itoa ver"

definition catalogedPluginToLoaded :: "server \<Rightarrow> string \<Rightarrow> CatalogedPlugin \<Rightarrow> LoadedPlugin" where
  "catalogedPluginToLoaded s host c =
     \<lparr>lp_Name = PluginName c,
      lp_Version = PluginVersion c,
      lp_Type = TypeName c,
      lp_Signed = IsSigned c,
      lp_Status = Status c,
      lp_LoadedTimestamp = LoadedTimestamp c,
      lp_Href = pluginURI s host (TypeName c) (PluginName c) (PluginVersion c)\<rparr>"

definition loadPlugin :: "server \<Rightarrow> request \<Rightarrow> effect list" where
  "loadPlugin s r =
     (case ContentType r of
        Inl err \<Rightarrow> respondError s 500 err
      | Inr mediaType \<Rightarrow>
          if HasPrefix mediaType ''multipart/'' then
            (case readParts s (PluginCompression r) (Parts r) 0 noUpload [] of
               Inl effs \<Rightarrow> effs
             | Inr (up, effs) \<Rightarrow>
                 (case requestPlugin s up of
                    Inl resp \<Rightarrow> effs @ resp
                  | Inr rp \<Rightarrow>
                      (case Load s rp of
                         Inl err \<Rightarrow>
                           (let rb = FromError s err;
                                ec = (if ResponseBodyMessage s rb = PluginAlreadyLoaded
                                      then 409 else 500)
                            in effs @ [RemoveAllDir (filepath_Dir (Path rp)),
                                       Respond ec (ErrorBody rb)])
                       | Inr pl \<Rightarrow>
                           effs @ [Respond 201
                                     (PluginsLoadedBody [catalogedPluginToLoaded s (Host r) pl])])))
          else [])"

text \<open>
  The checks on the route parameters, the same text in \<open>unloadPlugin\<close> and
  \<open>swapPlugins\<close>: the response of a failed check, or the plugin named.
\<close>

definition routeFields :: "request \<Rightarrow> (string \<times> field) list" where
  "routeFields r =
     [(''plugin-name'', FieldString (ByName r ''name'')),
      (''plugin-version'', FieldInt (fst (ParseInt (ByName r ''version'')))),
      (''plugin-type'', FieldString (ByName r ''type''))]"

definition routePlugin :: "server \<Rightarrow> request \<Rightarrow> effect list + plugin" where
  "routePlugin s r =
     (let plName = ByName r ''name'';
          plType = ByName r ''type'';
          (plVersion, iErr) = ParseInt (ByName r ''version'');
          f = routeFields r
      in if iErr \<noteq> None then
           Inl [Respond 400 (ErrorBody (FromSnapError s
                  \<lparr>se_message = ''invalid version'', se_fields = f\<rparr>))]
         else if plName = [] then
           Inl [Respond 400 (ErrorBody (FromSnapError s
                  \<lparr>se_message = ''missing plugin name'', se_fields = f\<rparr>))]
         else if plType = [] then
           Inl [Respond 400 (ErrorBody (FromSnapError s
                  \<lparr>se_message = ''missing plugin type'', se_fields = f\<rparr>))]
         else Inr \<lparr>name = plName, version = plVersion, pluginType = plType\<rparr>)"

definition unloadPlugin :: "server \<Rightarrow> request \<Rightarrow> effect list" where
  "unloadPlugin s r =
     (case routePlugin s r of
        Inl resp \<Rightarrow> resp
      | Inr pl \<Rightarrow>
          (case Unload s pl of
             Inl se \<Rightarrow>
               [Respond 500 (ErrorBody (FromSnapError s (se\<lparr>se_fields := routeFields r\<rparr>)))]
           | Inr up \<Rightarrow>
               [Respond 200 (PluginUnloadedBody
                  \<lparr>pu_Name = PluginName up, pu_Version = PluginVersion up, pu_Type = TypeName up\<rparr>)]))"

text \<open>
  \<open>swapPlugins\<close>. When \<open>SwapPlugins\<close> fails, the body is made from \<open>err\<close>, the
  variable of \<open>rp, err := core.NewRequestedPlugin(pluginPath)\<close>, which is nil once the
  check after that call has been passed; the failure \<open>se\<close> is not read.
\<close>

definition swapPlugins :: "server \<Rightarrow> request \<Rightarrow> effect list" where
  "swapPlugins s r =
     (case ContentType r of
        Inl err \<Rightarrow> respondError s 500 err
      | Inr mediaType \<Rightarrow>
          if HasPrefix mediaType ''multipart/'' then
            (case readParts s (PluginCompression r) (Parts r) 0 noUpload [] of
               Inl effs \<Rightarrow> effs
             | Inr (up, effs) \<Rightarrow>
                 (case requestPlugin s up of
                    Inl resp \<Rightarrow> effs @ resp
                  | Inr rp \<Rightarrow>
                      (case routePlugin s r of
                         Inl resp \<Rightarrow> effs @ resp
                       | Inr old \<Rightarrow>
                           (case SwapPlugins s rp old of
                              Inl se \<Rightarrow>
                                effs @ [RemoveAllDir (filepath_Dir (Path rp))] @
                                  (case FromError_nil s of
                                     Inl p \<Rightarrow> [Panic p]
                                   | Inr rb \<Rightarrow>
                                       [Respond
                                          (if ResponseBodyMessage s rb = PluginAlreadyLoaded
                                           then 409 else 500)
                                          (ErrorBody rb)])
                            | Inr (pl, up') \<Rightarrow>
                                effs @ [Respond 201
                                  (PluginsSwappedBody
                                     \<lparr>pu_Name = PluginName up', pu_Version = PluginVersion up',
                                      pu_Type = TypeName up'\<rparr>
                                     [catalogedPluginToLoaded s (Host r) pl])]))))
          else [])"

section \<open>Notions used to state the properties\<close>

text \<open>The status code a handler has passed to \<open>respond\<close>, if it has called it.\<close>

fun status :: "effect list \<Rightarrow> nat option" where
  "status [] = None"
| "status (Respond code b # effs) = Some code"
| "status (e # effs) = status effs"

text \<open>
  The path segments of a namespace are the pieces after its first slash; a dynamic
  element's index counts them from 0. A segment is rendered as the bracketed name of the
  last dynamic element that declares its index, and as itself when none does.
\<close>

definition segments :: "string \<Rightarrow> string list" where
  "segments ns = tl (Split ns CHR ''/'')"

definition renderedSegment :: "DynamicElement list \<Rightarrow> nat \<Rightarrow> string \<Rightarrow> string" where
  "renderedSegment elems i seg =
     (case find (\<lambda>v. Index v = int i) (rev elems) of
        None \<Rightarrow> seg
      | Some v \<Rightarrow> ''['' @ Name v @ '']'')"

text \<open>
  A file name that is a single path element: not empty, without a slash, and neither
  \<open>.\<close> nor \<open>..\<close>.
\<close>

definition plainName :: "string \<Rightarrow> bool" where
  "plainName fn = (fn \<noteq> [] \<and> CHR ''/'' \<notin> set fn \<and> fn \<noteq> ''.'' \<and> fn \<noteq> ''..'')"

text \<open>
  The elements of a cleaned path, the last one first: none is empty or \<open>.\<close>, and
  \<open>..\<close> stands only at the start of a path that is not rooted.
\<close>

fun cleanStack :: "bool \<Rightarrow> string list \<Rightarrow> bool" where
  "cleanStack rooted [] = True"
| "cleanStack rooted (e # below) =
     (e \<noteq> [] \<and> e \<noteq> ''.''
      \<and> (e = ''..'' \<longrightarrow> \<not> rooted \<and> (\<forall>x\<in>set below. x = ''..''))
      \<and> cleanStack rooted below)"

subsection \<open>Concrete values\<close>

text \<open>A host with four cores, and the dynamic metric of the listing in \<open>listMetrics\<close>.\<close>

definition fourCores :: runtime where
  "fourCores = \<lparr>NumCPU = 4, maxprocs = 4\<rparr>"

definition mockBaz :: Metric where
  "mockBaz =
     \<lparr>Namespace = ''/intel/mock/host/baz'', Version = 2, Dynamic = True,
      DynamicElements = [\<lparr>Index = 2, Name = ''host'', ElemDescription = ''name of the host''\<rparr>],
      Unit = ''mock unit'', Description = ''mock description''\<rparr>"

text \<open>
  A command line that gives nothing but \<open>-t 0\<close>, in an empty environment, and a
  machine on which every call succeeds.
\<close>

definition trustOff :: cliContext where
  "trustOff =
     \<lparr>cmdInt = [IntName flPluginTrust \<mapsto> 0], cmdString = Map.empty, cmdBool = (\<lambda>_. False),
      envInt = Map.empty, envString = Map.empty, tribe = False\<rparr>"

definition noFlags :: cliContext where
  "noFlags =
     \<lparr>cmdInt = Map.empty, cmdString = Map.empty, cmdBool = (\<lambda>_. False),
      envInt = Map.empty, envString = Map.empty, tribe = False\<rparr>"

definition quietMachine :: machine where
  "quietMachine =
     \<lparr>Stat = (\<lambda>_. Inr False), OpenFile = (\<lambda>_. None), Open = (\<lambda>_. None),
      ReadFile = (\<lambda>_. Inr []), ReadDir = (\<lambda>_. Inr []), Abs = Inr,
      ParseDuration = (\<lambda>d. if d = ''500ms'' then Inr 500000000 else Inl ''invalid duration''),
      Unmarshal = (\<lambda>_. None), Start = (\<lambda>_. None), tribe_New = None,
      rest_New = (\<lambda>_ _ _. None), AutoLoad = (\<lambda>_. True), boot_runtime = fourCores\<rparr>"

text \<open>
  A server whose file system accepts every call and whose temporary directory is
  \<open>/tmp/123\<close>; nothing is loaded on it, so that \<open>Load\<close> succeeds and \<open>Unload\<close>
  fails. Every file on it holds the bytes \<open>ELF\<close>, and a checksum is written as the
  bytes it is taken of. Its response bodies carry the message of the error; a nil error
  panics.
\<close>

definition mockCollector :: CatalogedPlugin where
  "mockCollector =
     \<lparr>PluginName = ''mock'', PluginVersion = 1, TypeName = ''collector'', IsSigned = False,
      Status = ''loaded'', LoadedTimestamp = 0\<rparr>"

definition emptyServer :: server where
  "emptyServer =
     \<lparr>protocolPrefix = ''http'', windows = False, TempDir = Inr ''/tmp/123'',
      Create = (\<lambda>_. None), Write = (\<lambda>_ _. None), Chmod = (\<lambda>_ _. None),
      Sum256 = (\<lambda>b. b), NewRequestedPlugin = (\<lambda>_. Inr ''ELF''),
      Load = (\<lambda>_. Inr mockCollector),
      Unload = (\<lambda>_. Inl \<lparr>se_message = ''plugin not found'', se_fields = []\<rparr>),
      SwapPlugins = (\<lambda>_ _. Inl \<lparr>se_message = ''plugin not found'', se_fields = []\<rparr>),
      FromError = (\<lambda>err. \<lparr>ErrorMessage = err, ErrorFields = []\<rparr>),
      FromError_nil = Inl NilPointerDereference,
      FromSnapError = (\<lambda>se. \<lparr>ErrorMessage = se_message se, ErrorFields = se_fields se\<rparr>),
      ResponseBodyMessage = ErrorMessage\<rparr>"

text \<open>
  The same server when its file system creates no file over the directories \<open>/tmp\<close>
  and \<open>/tmp/123\<close>, and \<open>Load\<close> fails.
\<close>

definition failingLoadServer :: server where
  "failingLoadServer =
     emptyServer
       \<lparr>Create := (\<lambda>p. if p = ''/tmp'' \<or> p = ''/tmp/123'' then Some ''is a directory'' else None),
        Load := (\<lambda>_. Inl ''plugin load failed'')\<rparr>"

text \<open>
  Requests: an upload of the given parts, uncompressed, on the route
  \<open>collector/mock/1\<close>; a part with the file name it is sent under and its bytes; a
  request without a body on the same route.
\<close>

definition filePart :: "string \<Rightarrow> bytes \<Rightarrow> Part" where
  "filePart fn b =
     \<lparr>disposition_filename = fn, Plain = Inr b,
      Gunzip = GzipHeaderError ''gzip: invalid header''\<rparr>"

definition mockRoute :: "string \<Rightarrow> string" where
  "mockRoute k =
     (if k = ''type'' then ''collector''
      else if k = ''name'' then ''mock''
      else if k = ''version'' then ''1''
      else [])"

definition uploadOf :: "Part list \<Rightarrow> request" where
  "uploadOf ps =
     \<lparr>ContentType = Inr ''multipart/form-data'', PluginCompression = [],
      Parts = map NextPart ps, Host = ''localhost:8181'', ByName = mockRoute\<rparr>"

definition deleteMock :: request where
  "deleteMock =
     \<lparr>ContentType = Inl ''mime: no media type'', PluginCompression = [], Parts = [],
      Host = ''localhost:8181'', ByName = mockRoute\<rparr>"

section \<open>Lemmas\<close>

subsection \<open>Strings\<close>

lemma Split_nonempty: "Split s c \<noteq> []"
  by (induction s) (auto split: list.splits)

lemma Join_Cons_head: "Join ((x # w) # ws) sep = x # Join (w # ws) sep"
  by (cases ws) auto

text \<open>Splitting at a separator and joining with it gives the string back.\<close>

lemma Join_Split: "Join (Split s c) [c] = s"
proof (induction s)
  case Nil
  show ?case by simp
next
  case (Cons x xs)
  show ?case
  proof (cases "Split xs c")
    case Nil
    then show ?thesis using Split_nonempty by blast
  next
    case (Cons w ws)
    then show ?thesis using Cons.IH by (auto simp: Join_Cons_head)
  qed
qed

lemma Split_no_sep: "\<forall>piece\<in>set (Split s c). c \<notin> set piece"
  by (induction s) (auto split: list.splits)

subsection \<open>Paths made of plain names\<close>

lemma Split_piece: "c \<notin> set x \<Longrightarrow> Split x c = [x]"
  by (induction x) auto

lemma Split_piece_then: "c \<notin> set x \<Longrightarrow> Split (x @ c # rest) c = x # Split rest c"
proof (induction x)
  case Nil
  show ?case by simp
next
  case (Cons a x)
  then have "a \<noteq> c" and "Split (x @ c # rest) c = x # Split rest c" by auto
  then show ?case by simp
qed

lemma Split_Join:
  assumes "es \<noteq> []" "\<forall>e\<in>set es. c \<notin> set e"
  shows "Split (Join es [c]) c = es"
  using assms
proof (induction es "[c]" rule: Join.induct)
  case 1
  then show ?case by simp
next
  case (2 x)
  then show ?case by (simp add: Split_piece)
next
  case (3 x y ys)
  then show ?case by (simp add: Split_piece_then)
qed

lemma Join_snoc: "es \<noteq> [] \<Longrightarrow> Join (es @ [x]) sep = Join es sep @ sep @ x"
proof (induction es)
  case Nil
  then show ?case by simp
next
  case (Cons e es)
  show ?case
  proof (cases es)
    case Nil
    then show ?thesis by simp
  next
    case (Cons e' es')
    then show ?thesis using Cons.IH by simp
  qed
qed

lemma cleanElems_plain:
  assumes "\<forall>e\<in>set es. e = [] \<or> plainName e"
  shows "cleanElems rooted es out = rev out @ filter (\<lambda>e. e \<noteq> []) es"
  using assms
proof (induction es arbitrary: out)
  case Nil
  show ?case by simp
next
  case (Cons e es)
  have IH: "cleanElems rooted es out' = rev out' @ filter (\<lambda>e. e \<noteq> []) es" for out'
    using Cons by simp
  show ?case
  proof (cases "e = []")
    case True
    then show ?thesis using IH by simp
  next
    case False
    then have "plainName e" using Cons.prems by simp
    then have "e \<noteq> ''.''" "e \<noteq> ''..''" by (simp_all add: plainName_def)
    then show ?thesis using False IH by simp
  qed
qed

lemma Clean_rooted_plain:
  assumes "\<forall>e\<in>set es. e = [] \<or> plainName e" "es \<noteq> []"
  shows "Clean (CHR ''/'' # Join es ''/'') = CHR ''/'' # Join (filter (\<lambda>e. e \<noteq> []) es) ''/''"
proof -
  have nosep: "\<forall>e\<in>set es. CHR ''/'' \<notin> set e"
    using assms(1) unfolding plainName_def by fastforce
  have sp: "Split (Join es ''/'') CHR ''/'' = es"
    by (rule Split_Join[OF assms(2) nosep])
  have ce: "cleanElems True es [] = filter (\<lambda>e. e \<noteq> []) es"
    using cleanElems_plain[OF assms(1), of True "[]"] by simp
  have "Split (CHR ''/'' # Join es ''/'') CHR ''/'' = [] # es"
    using sp by simp
  then have "cleanElems True (Split (CHR ''/'' # Join es ''/'') CHR ''/'') []
               = filter (\<lambda>e. e \<noteq> []) es"
    using ce by simp
  then show ?thesis
    unfolding Clean_def Let_def by simp
qed

lemma path_Join_plain:
  assumes "dir = CHR ''/'' # Join es ''/''" "es \<noteq> []" "\<forall>e\<in>set es. plainName e"
    and "plainName fn"
  shows "path_Join dir fn = dir @ ''/'' @ fn"
proof -
  have all: "\<forall>e\<in>set (es @ [fn]). e = [] \<or> plainName e" using assms by auto
  have ne: "filter (\<lambda>e. e \<noteq> []) (es @ [fn]) = es @ [fn]"
    using assms by (auto simp: plainName_def filter_id_conv)
  have "dir @ ''/'' @ fn = CHR ''/'' # Join (es @ [fn]) ''/''"
    using assms(1,2) by (simp add: Join_snoc)
  then show ?thesis
    using Clean_rooted_plain[OF all] ne assms(1) by (simp add: path_Join_def)
qed

lemma filepath_Dir_plain:
  assumes "dir = CHR ''/'' # Join es ''/''" "es \<noteq> []" "\<forall>e\<in>set es. plainName e"
    and "plainName fn"
  shows "filepath_Dir (dir @ ''/'' @ fn) = dir"
proof -
  have "\<forall>x\<in>set (rev fn). x \<noteq> CHR ''/''" using assms(4) by (auto simp: plainName_def)
  then have "dropWhile (\<lambda>c. c \<noteq> CHR ''/'') (rev fn @ CHR ''/'' # rev dir)
               = dropWhile (\<lambda>c. c \<noteq> CHR ''/'') (CHR ''/'' # rev dir)"
    by (intro dropWhile_append2) blast
  then have "dropWhile (\<lambda>c. c \<noteq> CHR ''/'') (rev fn @ CHR ''/'' # rev dir) = CHR ''/'' # rev dir"
    by simp
  then have d: "filepath_Dir (dir @ ''/'' @ fn) = Clean (dir @ ''/'')"
    by (simp add: filepath_Dir_def)
  have all: "\<forall>e\<in>set (es @ [[]]). e = [] \<or> plainName e" using assms by auto
  have ne: "filter (\<lambda>e. e \<noteq> []) (es @ [[]]) = es"
    using assms by (auto simp: plainName_def filter_id_conv)
  have "dir @ ''/'' = CHR ''/'' # Join (es @ [[]]) ''/''"
    using assms(1,2) by (simp add: Join_snoc)
  then show ?thesis
    using Clean_rooted_plain[OF all] ne assms(1) d by simp
qed

subsection \<open>Cleaned paths\<close>

lemma Split_append: "Split (a @ c # b) c = Split a c @ Split b c"
proof (induction a)
  case Nil
  show ?case by simp
next
  case (Cons x a)
  obtain w ws where sa: "Split a c = w # ws"
    using Split_nonempty[of a c] by (cases "Split a c") auto
  show ?case using Cons sa by simp
qed

lemma cleanElems_append:
  "cleanElems r (es @ es') out = cleanElems r es' (rev (cleanElems r es out))"
proof (induction es arbitrary: out)
  case Nil
  show ?case by simp
next
  case (Cons e es)
  show ?case
    by (cases out) (simp_all add: Cons)
qed

lemma cleanElems_snoc_plain:
  assumes "plainName fn"
  shows "cleanElems r (es @ [fn]) out = cleanElems r es out @ [fn]"
  using assms by (simp add: cleanElems_append plainName_def)

lemma cleanElems_snoc_dropped:
  assumes "e = [] \<or> e = ''.''"
  shows "cleanElems r (es @ [e]) out = cleanElems r es out"
  using assms by (auto simp: cleanElems_append)

lemma cleanStack_suffix: "cleanStack r (a @ b) \<Longrightarrow> cleanStack r b"
  by (induction a) auto

lemma cleanStack_cleanElems:
  "cleanStack r out \<Longrightarrow> cleanStack r (rev (cleanElems r es out))"
proof (induction es arbitrary: out)
  case Nil
  then show ?case by simp
next
  case (Cons e es)
  have IH: "cleanStack r out' \<Longrightarrow> cleanStack r (rev (cleanElems r es out'))" for out'
    by (rule Cons.IH)
  consider (dropped) "e = [] \<or> e = ''.''"
    | (up_empty) "e = ''..''" "out = []"
    | (up_up) below where "e = ''..''" "out = ''..'' # below"
    | (up_pop) e' below where "e = ''..''" "out = e' # below" "e' \<noteq> ''..''"
    | (push) "e \<noteq> []" "e \<noteq> ''.''" "e \<noteq> ''..''"
    by (cases out) auto
  then show ?case
  proof cases
    case dropped
    then show ?thesis using IH[OF Cons.prems] by auto
  next
    case up_empty
    have "cleanStack r (if r then [] else [''..''])" by simp
    from IH[OF this] show ?thesis using up_empty by (cases r) auto
  next
    case up_up
    have "cleanStack r (if r then out else ''..'' # out)"
      using Cons.prems up_up by auto
    from IH[OF this] show ?thesis using up_up by (cases r) auto
  next
    case up_pop
    have "cleanStack r below" using Cons.prems up_pop by simp
    from IH[OF this] show ?thesis using up_pop by (cases r) auto
  next
    case push
    have "cleanStack r (e # out)" using Cons.prems push by simp
    from IH[OF this] show ?thesis using push by (cases r) auto
  qed
qed

lemma cleanElems_idem:
  "cleanStack r (rev xs @ out) \<Longrightarrow> cleanElems r xs out = rev out @ xs"
proof (induction xs arbitrary: out)
  case Nil
  show ?case by simp
next
  case (Cons x xs)
  have all: "cleanStack r (rev xs @ x # out)" using Cons.prems by simp
  then have xo: "cleanStack r (x # out)" by (rule cleanStack_suffix)
  then have x: "x \<noteq> []" "x \<noteq> ''.''" by simp_all
  show ?case
  proof (cases "x = ''..''")
    case False
    then show ?thesis using x Cons.IH[OF all] by simp
  next
    case True
    then have nr: "\<not> r" and ups: "\<forall>y\<in>set out. y = ''..''" using xo by simp_all
    show ?thesis
    proof (cases out)
      case Nil
      then show ?thesis using True nr Cons.IH[of "[''..'']"] all by simp
    next
      case (Cons e' below)
      then have "e' = ''..''" using ups by simp
      then show ?thesis using True nr Cons Cons.IH[of "''..'' # out"] all by simp
    qed
  qed
qed

lemma cleanElems_elems:
  "set (cleanElems r es out) \<subseteq> set es \<union> set out \<union> {''..''}"
proof (induction es arbitrary: out)
  case Nil
  show ?case by auto
next
  case (Cons e es)
  show ?case
  proof (cases out)
    case Nil
    then show ?thesis
      using Cons.IH[of "[]"] Cons.IH[of "[''..'']"] Cons.IH[of "[e]"] by auto
  next
    case (Cons e' below)
    then show ?thesis
      using Cons.IH[of out] Cons.IH[of below] Cons.IH[of "''..'' # out"] Cons.IH[of "e # out"]
      by auto
  qed
qed

lemma cleanStack_elems: "cleanStack r xs \<Longrightarrow> \<forall>e\<in>set xs. e \<noteq> [] \<and> e \<noteq> ''.''"
  by (induction xs) auto

text \<open>The elements \<open>path.Clean\<close> keeps of a path, and what it makes of them.\<close>

lemma Clean_of_elems:
  assumes "p \<noteq> []" and "cleanElems (hd p = CHR ''/'') (Split p CHR ''/'') [] = E"
  shows "Clean p = (if hd p = CHR ''/'' then CHR ''/'' # Join E ''/''
                    else if E = [] then ''.'' else Join E ''/'')"
  using assms by (cases "hd p = CHR ''/''") (simp_all add: Clean_def Let_def)

lemma Clean_elems:
  assumes "dir \<noteq> []" and "E = cleanElems (hd dir = CHR ''/'') (Split dir CHR ''/'') []"
  shows "Clean dir = (if hd dir = CHR ''/'' then CHR ''/'' # Join E ''/''
                      else if E = [] then ''.'' else Join E ''/'')"
    and "cleanStack (hd dir = CHR ''/'') (rev E)"
    and "\<forall>e\<in>set E. CHR ''/'' \<notin> set e"
    and "cleanElems (hd dir = CHR ''/'') E [] = E"
proof -
  show "Clean dir = (if hd dir = CHR ''/'' then CHR ''/'' # Join E ''/''
                      else if E = [] then ''.'' else Join E ''/'')"
    by (rule Clean_of_elems[OF assms(1) assms(2)[symmetric]])
  have "cleanStack (hd dir = CHR ''/'') []" by simp
  from cleanStack_cleanElems[OF this] show cs: "cleanStack (hd dir = CHR ''/'') (rev E)"
    using assms(2) by simp
  have "set E \<subseteq> set (Split dir CHR ''/'') \<union> set [] \<union> {''..''}"
    unfolding assms(2) by (rule cleanElems_elems)
  then show "\<forall>e\<in>set E. CHR ''/'' \<notin> set e"
    using Split_no_sep[of dir "CHR ''/''"] by auto
  have "cleanStack (hd dir = CHR ''/'') (rev E @ [])" using cs by simp
  from cleanElems_idem[OF this] show "cleanElems (hd dir = CHR ''/'') E [] = E" by simp
qed

text \<open>Cleaning a path that ends in a slash, in \<open>/.\<close> or in two slashes.\<close>

lemma Clean_dropped:
  assumes "dir \<noteq> []" and "tl0 = [] \<or> tl0 = ''.'' \<or> tl0 = ''/''"
  shows "Clean (dir @ ''/'' @ tl0) = Clean dir"
proof -
  define r where "r = (hd dir = CHR ''/'')"
  define E where "E = cleanElems r (Split dir CHR ''/'') []"
  have sp: "Split (dir @ ''/'' @ tl0) CHR ''/'' = Split dir CHR ''/'' @ Split tl0 CHR ''/''"
    using Split_append[of dir "CHR ''/''" tl0] by simp
  have t: "cleanElems r (Split tl0 CHR ''/'') (rev E) = E"
    using assms(2) by auto
  have c: "cleanElems r (Split (dir @ ''/'' @ tl0) CHR ''/'') [] = E"
    unfolding sp cleanElems_append E_def[symmetric] by (rule t)
  have h: "hd (dir @ ''/'' @ tl0) = hd dir" using assms(1) by simp
  have ne: "dir @ ''/'' @ tl0 \<noteq> []" by simp
  have "cleanElems (hd (dir @ ''/'' @ tl0) = CHR ''/'') (Split (dir @ ''/'' @ tl0) CHR ''/'') [] = E"
    using c unfolding h r_def .
  from Clean_of_elems[OF ne this]
  have "Clean (dir @ ''/'' @ tl0) = (if hd dir = CHR ''/'' then CHR ''/'' # Join E ''/''
                    else if E = [] then ''.'' else Join E ''/'')"
    unfolding h .
  moreover have "cleanElems (hd dir = CHR ''/'') (Split dir CHR ''/'') [] = E"
    by (simp add: E_def r_def)
  from Clean_of_elems[OF assms(1) this]
  have "Clean dir = (if hd dir = CHR ''/'' then CHR ''/'' # Join E ''/''
                    else if E = [] then ''.'' else Join E ''/'')" .
  ultimately show ?thesis by simp
qed

text \<open>
  Cleaning a path followed by a slash and a plain name: the elements kept of the path,
  then the name.
\<close>

lemma Clean_snoc_plain:
  assumes "dir \<noteq> []" and "plainName fn"
    and "E = cleanElems (hd dir = CHR ''/'') (Split dir CHR ''/'') []"
  shows "Clean (dir @ ''/'' @ fn) =
     (if hd dir = CHR ''/'' then ''/'' else [])
     @ (if E = [] then [] else Join E ''/'' @ ''/'') @ fn"
proof -
  have nosep: "CHR ''/'' \<notin> set fn" using assms(2) by (simp add: plainName_def)
  have sp: "Split (dir @ ''/'' @ fn) CHR ''/'' = Split dir CHR ''/'' @ [fn]"
    using Split_append[of dir "CHR ''/''" fn] Split_piece[OF nosep] by simp
  have ce: "cleanElems (hd dir = CHR ''/'') (Split (dir @ ''/'' @ fn) CHR ''/'') [] = E @ [fn]"
    unfolding sp assms(3) by (rule cleanElems_snoc_plain[OF assms(2)])
  have hd: "hd (dir @ ''/'' @ fn) = hd dir" using assms(1) by simp
  have j: "Join (E @ [fn]) ''/'' = (if E = [] then [] else Join E ''/'' @ ''/'') @ fn"
    by (simp add: Join_snoc)
  have ne: "dir @ ''/'' @ fn \<noteq> []" by simp
  have "cleanElems (hd (dir @ ''/'' @ fn) = CHR ''/'') (Split (dir @ ''/'' @ fn) CHR ''/'') []
          = E @ [fn]"
    using ce unfolding hd .
  from Clean_of_elems[OF ne this]
  have "Clean (dir @ ''/'' @ fn) =
     (if hd dir = CHR ''/'' then CHR ''/'' # Join (E @ [fn]) ''/'' else Join (E @ [fn]) ''/'')"
    unfolding hd by simp
  then show ?thesis unfolding j by simp
qed

text \<open>Cleaning what stands before the name in such a path gives the cleaned path back.\<close>

lemma Clean_cleaned_dir:
  assumes "dir \<noteq> []"
    and "E = cleanElems (hd dir = CHR ''/'') (Split dir CHR ''/'') []"
  shows "Clean ((if hd dir = CHR ''/'' then ''/'' else [])
                @ (if E = [] then [] else Join E ''/'' @ ''/'')) = Clean dir"
proof -
  note ce = Clean_elems[OF assms]
  show ?thesis
  proof (cases "E = []")
    case True
    have "Clean ''/'' = ''/''" by code_simp
    moreover have "Clean [] = ''.''" by (simp add: Clean_def)
    ultimately show ?thesis using True ce(1) by simp
  next
    case False
    have sj: "Split (Join E ''/'') CHR ''/'' = E"
      by (rule Split_Join[OF False ce(3)])
    have sp: "Split (Join E ''/'' @ ''/'') CHR ''/'' = E @ [[]]"
      using Split_append[of "Join E ''/''" "CHR ''/''" "[]"] sj by simp
    have el: "cleanElems (hd dir = CHR ''/'') (E @ [[]]) [] = E"
      using cleanElems_snoc_dropped[of "[]" "hd dir = CHR ''/''" E "[]"] ce(4) by simp
    show ?thesis
    proof (cases "hd dir = CHR ''/''")
      case True
      have "Split (''/'' @ Join E ''/'' @ ''/'') CHR ''/'' = [] # E @ [[]]"
        using sp by simp
      then have "cleanElems True (Split (''/'' @ Join E ''/'' @ ''/'') CHR ''/'') [] = E"
        using el True by simp
      then have "cleanElems (hd (''/'' @ Join E ''/'' @ ''/'') = CHR ''/'')
                   (Split (''/'' @ Join E ''/'' @ ''/'') CHR ''/'') [] = E"
        by simp
      from Clean_of_elems[OF _ this]
      have "Clean (''/'' @ Join E ''/'' @ ''/'') = CHR ''/'' # Join E ''/''"
        by simp
      then show ?thesis using True False ce(1) by simp
    next
      case rel: False
      obtain e es where E: "E = e # es" using False by (cases E) auto
      have "e \<noteq> []" using cleanStack_elems[OF ce(2)] E by simp
      moreover have "CHR ''/'' \<notin> set e" using ce(3) E by simp
      ultimately have "hd e \<noteq> CHR ''/''" by (cases e) auto
      moreover have "hd (Join E ''/'' @ ''/'') = hd e"
        using E \<open>e \<noteq> []\<close> by (cases es) simp_all
      ultimately have h: "hd (Join E ''/'' @ ''/'') \<noteq> CHR ''/''" by simp
      have "cleanElems False (Split (Join E ''/'' @ ''/'') CHR ''/'') [] = E"
        using el rel sp by simp
      then have "cleanElems (hd (Join E ''/'' @ ''/'') = CHR ''/'')
                   (Split (Join E ''/'' @ ''/'') CHR ''/'') [] = E"
        using h by simp
      from Clean_of_elems[OF _ this]
      have "Clean (Join E ''/'' @ ''/'') = Join E ''/''"
        using h False by simp
      then show ?thesis using rel False ce(1) by simp
    qed
  qed
qed

text \<open>
  The directory and the last element of a path that ends in a name without a slash, when
  what stands before the name is empty or ends in a slash.
\<close>

lemma filepath_Dir_file:
  assumes "CHR ''/'' \<notin> set fn" and "pre = [] \<or> last pre = CHR ''/''"
  shows "filepath_Dir (pre @ fn) = Clean pre"
proof -
  have "\<forall>x\<in>set (rev fn). x \<noteq> CHR ''/''" using assms(1) by auto
  then have "dropWhile (\<lambda>c. c \<noteq> CHR ''/'') (rev fn @ rev pre)
               = dropWhile (\<lambda>c. c \<noteq> CHR ''/'') (rev pre)"
    by (intro dropWhile_append2) blast
  moreover have "dropWhile (\<lambda>c. c \<noteq> CHR ''/'') (rev pre) = rev pre"
    using assms(2) by (cases pre rule: rev_cases) auto
  ultimately show ?thesis by (simp add: filepath_Dir_def)
qed

lemma filepath_Base_file:
  assumes "fn \<noteq> []" and "CHR ''/'' \<notin> set fn" and "pre = [] \<or> last pre = CHR ''/''"
  shows "filepath_Base (pre @ fn) = fn"
proof -
  obtain front l where fn: "fn = front @ [l]"
    using assms(1) by (cases fn rule: rev_cases) auto
  then have l: "l \<noteq> CHR ''/''" using assms(2) by auto
  have "rev (pre @ fn) = l # rev front @ rev pre" unfolding fn by simp
  then have d: "dropWhile (\<lambda>c. c = CHR ''/'') (rev (pre @ fn)) = rev (pre @ fn)"
    using l by simp
  have "\<forall>x\<in>set (rev fn). x \<noteq> CHR ''/''" using assms(2) by auto
  then have "takeWhile (\<lambda>c. c \<noteq> CHR ''/'') (rev fn @ rev pre)
               = rev fn @ takeWhile (\<lambda>c. c \<noteq> CHR ''/'') (rev pre)"
    by (intro takeWhile_append2) blast
  moreover have "takeWhile (\<lambda>c. c \<noteq> CHR ''/'') (rev pre) = []"
    using assms(3) by (cases pre rule: rev_cases) auto
  ultimately have t: "takeWhile (\<lambda>c. c \<noteq> CHR ''/'') (rev (pre @ fn)) = rev fn" by simp
  show ?thesis
    using assms(1) d t by (simp add: filepath_Base_def Let_def)
qed

text \<open>
  \<open>path.Join\<close> of a directory and a plain name: the file of that name in that
  directory. With no name, with \<open>.\<close> and with a slash it is the directory itself.
\<close>

lemma path_Join_in_dir:
  assumes "dir \<noteq> []" and "plainName fn"
  shows "filepath_Dir (path_Join dir fn) = Clean dir"
    and "filepath_Base (path_Join dir fn) = fn"
proof -
  define E where "E = cleanElems (hd dir = CHR ''/'') (Split dir CHR ''/'') []"
  define pre where "pre = (if hd dir = CHR ''/'' then ''/'' else [])
                          @ (if E = [] then [] else Join E ''/'' @ ''/'')"
  have f: "path_Join dir fn = pre @ fn"
    using Clean_snoc_plain[OF assms E_def] assms(1) by (simp add: path_Join_def pre_def)
  have p: "pre = [] \<or> last pre = CHR ''/''" by (simp add: pre_def)
  have n: "fn \<noteq> []" "CHR ''/'' \<notin> set fn" using assms(2) by (simp_all add: plainName_def)
  show "filepath_Dir (path_Join dir fn) = Clean dir"
    unfolding f using filepath_Dir_file[OF n(2) p] Clean_cleaned_dir[OF assms(1) E_def]
    by (simp add: pre_def)
  show "filepath_Base (path_Join dir fn) = fn"
    unfolding f by (rule filepath_Base_file[OF n p])
qed

lemma path_Join_dir_itself:
  assumes "dir \<noteq> []" and "fn = [] \<or> fn = ''.'' \<or> fn = ''/''"
  shows "path_Join dir fn = Clean dir"
  using Clean_dropped[OF assms] assms(1) by (simp add: path_Join_def)

subsection \<open>The namespace of a metric\<close>

lemma find_snoc:
  "find P (xs @ [x]) =
     (case find P xs of None \<Rightarrow> (if P x then Some x else None) | Some y \<Rightarrow> Some y)"
  by (induction xs) auto

text \<open>The piece at position \<open>j\<close> of the split namespace after the loop of \<open>getNamespace\<close>.\<close>

lemma setDynamic_pieces:
  assumes "\<forall>v\<in>set elems. 0 \<le> Index v \<and> Index v + 1 < int (length slice)"
  shows "setDynamic slice elems =
     Inr (map (\<lambda>j. case find (\<lambda>v. Index v + 1 = int j) (rev elems) of
                      None \<Rightarrow> slice ! j
                    | Some v \<Rightarrow> ''['' @ Name v @ '']'') [0..<length slice])"
  using assms
proof (induction elems arbitrary: slice)
  case Nil
  show ?case by (simp add: map_nth)
next
  case (Cons v vs)
  let ?i = "nat (Index v + 1)"
  let ?slice' = "slice[?i := ''['' @ Name v @ '']'']"
  have ok: "0 \<le> Index v + 1" "Index v + 1 < int (length slice)"
    using Cons.prems by auto
  have "\<forall>u\<in>set vs. 0 \<le> Index u \<and> Index u + 1 < int (length ?slice')"
    using Cons.prems by simp
  from Cons.IH[OF this]
  have step: "setDynamic ?slice' vs =
     Inr (map (\<lambda>j. case find (\<lambda>v. Index v + 1 = int j) (rev vs) of
                      None \<Rightarrow> ?slice' ! j
                    | Some v \<Rightarrow> ''['' @ Name v @ '']'') [0..<length slice])"
    by simp
  have same: "(case find (\<lambda>v. Index v + 1 = int j) (rev vs) of
                 None \<Rightarrow> ?slice' ! j | Some v \<Rightarrow> ''['' @ Name v @ '']'')
            = (case find (\<lambda>v. Index v + 1 = int j) (rev (v # vs)) of
                 None \<Rightarrow> slice ! j | Some v \<Rightarrow> ''['' @ Name v @ '']'')"
    if j: "j < length slice" for j
  proof (cases "?i = j")
    case True
    then have "Index v + 1 = int j" using ok by auto
    then show ?thesis using True j by (simp add: find_snoc split: option.splits)
  next
    case False
    then have "Index v + 1 \<noteq> int j" using ok by auto
    then show ?thesis using False j by (simp add: find_snoc split: option.splits)
  qed
  show ?case using ok step same by simp
qed

lemma getNamespace_segments:
  assumes dyn: "Dynamic mt"
    and idx: "\<forall>v\<in>set (DynamicElements mt).
                0 \<le> Index v \<and> Index v < int (length (segments (Namespace mt)))"
  shows "getNamespace mt =
     Inr (Join (hd (Split (Namespace mt) CHR ''/'')
                 # map (\<lambda>i. renderedSegment (DynamicElements mt) i (segments (Namespace mt) ! i))
                     [0..<length (segments (Namespace mt))]) ''/'')"
proof -
  let ?pieces = "Split (Namespace mt) CHR ''/''"
  let ?elems = "DynamicElements mt"
  let ?f = "\<lambda>j. case find (\<lambda>v. Index v + 1 = int j) (rev ?elems) of
                    None \<Rightarrow> ?pieces ! j | Some v \<Rightarrow> ''['' @ Name v @ '']''"
  obtain p0 segs where pieces: "?pieces = p0 # segs"
    using Split_nonempty by (cases ?pieces) auto
  then have segs: "segments (Namespace mt) = segs" by (simp add: segments_def)
  have len: "length ?pieces = Suc (length segs)" using pieces by simp
  have "\<forall>v\<in>set ?elems. 0 \<le> Index v \<and> Index v + 1 < int (length ?pieces)"
    using idx segs len by auto
  from setDynamic_pieces[OF this]
  have sd: "setDynamic ?pieces ?elems = Inr (map ?f [0..<Suc (length segs)])"
    using len by simp
  have nonneg: "\<forall>v\<in>set (rev ?elems). Index v + 1 \<noteq> 0" using idx by auto
  have f0: "?f 0 = p0"
  proof -
    have "find (\<lambda>v. Index v + 1 = int 0) (rev ?elems) = None"
      using nonneg by (auto simp: find_None_iff)
    moreover have "?pieces ! 0 = p0" using pieces by simp
    ultimately show ?thesis by (simp split: option.splits)
  qed
  have fS: "?f (Suc i) = renderedSegment ?elems i (segs ! i)" for i
  proof -
    have "(\<lambda>v. Index v + 1 = int (Suc i)) = (\<lambda>v. Index v = int i)" by auto
    moreover have "?pieces ! Suc i = segs ! i" using pieces by simp
    ultimately show ?thesis by (simp add: renderedSegment_def split: option.splits)
  qed
  have "map ?f [0..<Suc (length segs)] = ?f 0 # map (\<lambda>i. ?f (Suc i)) [0..<length segs]"
    by (simp add: upt_conv_Cons map_Suc_upt[symmetric] del: upt_Suc)
  then have "map ?f [0..<Suc (length segs)]
           = p0 # map (\<lambda>i. renderedSegment ?elems i (segs ! i)) [0..<length segs]"
    using f0 fS by simp
  then show ?thesis using dyn sd pieces segs by (simp add: getNamespace_def)
qed

subsection \<open>The namespace given to metric list\<close>

lemma normalizeNs_bare:
  assumes "2 \<le> length p" "\<not> HasSuffix p ''/''" "\<not> HasSuffix p ''/*''"
  shows "normalizeNs p = Inr (p @ ''/*'')"
proof -
  have ne: "p \<noteq> []" using assms(1) by (cases p) simp_all
  have s2: "slice_from p (int (length p) - 2) = Inr (drop (length p - 2) p)"
    using assms(1) ne by (simp add: slice_from_def nat_diff_distrib)
  have s1: "slice_from p (int (length p) - 1) = Inr (drop (length p - 1) p)"
    using assms(1) ne by (simp add: slice_from_def nat_diff_distrib)
  have l2: "drop (length p - 2) p \<noteq> ''/*''"
    using assms(1,3) ne by (simp add: HasSuffix_def numeral_2_eq_2)
  have l1: "drop (length p - 1) p \<noteq> ''/''"
    using assms(1,2) ne by (simp add: HasSuffix_def)
  show ?thesis
    using l1 l2 by (simp add: normalizeNs_def s1 s2 ne)
qed

lemma normalizeNs_slash:
  assumes "1 \<le> length p"
  shows "normalizeNs (p @ ''/'') = Inr (p @ ''/*'')"
  using assms by (auto simp: normalizeNs_def slice_from_def nat_diff_distrib)

lemma normalizeNs_wild: "normalizeNs (p @ ''/*'') = Inr (p @ ''/*'')"
  by (auto simp: normalizeNs_def slice_from_def nat_diff_distrib)

lemma normalizeNs_len1: "length ns = 1 \<Longrightarrow> normalizeNs ns = Inl SliceBoundsOutOfRange"
  by (cases ns) (auto simp: normalizeNs_def slice_from_def)

lemma normalizeNs_total: "length ns \<noteq> 1 \<Longrightarrow> \<exists>q. normalizeNs ns = Inr q"
  by (cases ns) (auto simp: normalizeNs_def slice_from_def)

subsection \<open>snapd\<close>

lemma setMaxProcs_maxprocs:
  assumes "1 \<le> NumCPU r0"
  shows "maxprocs (snd (setMaxProcs n r0)) =
     (if n \<le> 0 then 1 else if n \<le> NumCPU r0 then n else NumCPU r0)"
  using assms by (simp add: setMaxProcs_def GOMAXPROCS_def Let_def)

lemma keyringStep_no_keyring:
  "0 < t \<Longrightarrow> keyringStep m t [] = Inl ''need keyring file when trust is on (--keyring-file or -k)''"
  by (simp add: keyringStep_def SplitList_def)

lemma action_bad_levels:
  assumes "validateLevelSettings (ctx_Int ctx flLogLevel) (ctx_Int ctx flPluginTrust) = Some msg"
  shows "\<exists>msg'. action m ctx = Fatal msg'"
  using assms unfolding action_def Let_def
  by (auto split: option.splits sum.splits)

lemma action_no_keyring:
  assumes "0 < ctx_Int ctx flPluginTrust" "ctx_String ctx flkeyringPaths = []"
  shows "\<exists>msg'. action m ctx = Fatal msg'"
  using assms keyringStep_no_keyring[of "ctx_Int ctx flPluginTrust" m]
  unfolding action_def Let_def
  by (auto split: option.splits sum.splits)

lemma autoload_not_Serving: "autoload m ps \<noteq> Inl (Serving d)"
  by (induction ps) (auto split: sum.splits)

lemma action_serving:
  assumes "action m ctx = Serving d"
  shows "scheduler_opts d =
           [CollectQSizeOption 25, CollectWkrSizeOption 4,
            PublishQSizeOption 25, PublishWkrSizeOption 4,
            ProcessQSizeOption 25, ProcessWkrSizeOption 4]"
    and "\<exists>cache cfg. ParseDuration m (ctx_String ctx flCache) = Inr cache \<and>
           control_opts d =
             MaxRunningPlugins (ctx_Int ctx flNumberOfPLs) # CacheExpiration cache # cfg"
    and "go_runtime d = snd (setMaxProcs (ctx_Int ctx flMaxProcs) (boot_runtime m))"
  using assms autoload_not_Serving[of m _ d] unfolding action_def Let_def
  by (auto split: option.splits sum.splits if_splits
           simp: defaultQueueSize_def defaultPoolSize_def)

subsection \<open>The handlers\<close>

lemma status_append_fs:
  "\<forall>e\<in>set effs. \<forall>c b. e \<noteq> Respond c b \<Longrightarrow> status (effs @ tl0) = status tl0"
  by (induction effs rule: status.induct) auto

lemma writeFile_no_response:
  "writeFile s fn b = (w, res) \<Longrightarrow> \<forall>e\<in>set w. \<forall>c body. e \<noteq> Respond c body"
  by (auto simp: writeFile_def Let_def split: sum.splits option.splits if_splits)

lemma status_written:
  "writeFile s fn b = (w, res) \<Longrightarrow> status (w @ tl0) = status tl0"
  using status_append_fs writeFile_no_response by blast

lemma status_respondError [simp]: "status (respondError s c e) = Some c"
  by (simp add: respondError_def)

text \<open>The route parameters.\<close>

lemma unloadPlugin_400:
  assumes "snd (ParseInt (ByName r ''version'')) \<noteq> None
           \<or> ByName r ''name'' = [] \<or> ByName r ''type'' = []"
  shows "status (unloadPlugin s r) = Some 400"
  using assms
  by (auto simp: unloadPlugin_def routePlugin_def Let_def split: prod.splits)

lemma unloadPlugin_rest:
  assumes "snd (ParseInt (ByName r ''version'')) = None"
    "ByName r ''name'' \<noteq> []" "ByName r ''type'' \<noteq> []"
  shows "unloadPlugin s r =
     (case Unload s \<lparr>name = ByName r ''name'',
                      version = fst (ParseInt (ByName r ''version'')),
                      pluginType = ByName r ''type''\<rparr> of
        Inl se \<Rightarrow> [Respond 500 (ErrorBody (FromSnapError s (se\<lparr>se_fields := routeFields r\<rparr>)))]
      | Inr up \<Rightarrow>
          [Respond 200 (PluginUnloadedBody
             \<lparr>pu_Name = PluginName up, pu_Version = PluginVersion up, pu_Type = TypeName up\<rparr>)])"
  using assms
  by (auto simp: unloadPlugin_def routePlugin_def Let_def split: prod.splits sum.splits)

lemma unloadPlugin_codes:
  "Respond code b \<in> set (unloadPlugin s r) \<Longrightarrow> code = 200 \<or> code = 400 \<or> code = 500"
  by (auto simp: unloadPlugin_def routePlugin_def Let_def
           split: prod.splits sum.splits if_splits)

text \<open>The upload loop: whenever it returns, the response is 500.\<close>

lemma readParts_returns_500:
  assumes "readParts s c ps i up effs = Inl out"
    and "\<forall>e\<in>set effs. \<forall>c b. e \<noteq> Respond c b"
  shows "status out = Some 500"
  using assms
proof (induction s c ps i up effs rule: readParts.induct)
  case (1 s compression i up effs)
  then show ?case by simp
next
  case (2 s compression err rest i up effs)
  then show ?case by (auto simp: status_append_fs)
next
  case (3 s compression p rest i up effs)
  show ?case
  proof (cases "readBody compression p")
    case (Inl failed)
    then show ?thesis
      using "3.prems" by (cases failed) (auto simp: status_append_fs respondError_def)
  next
    case (Inr b)
    obtain w res where wf: "writeFile s (FileName p) b = (w, res)" by fastforce
    have nr: "\<forall>e\<in>set (effs @ w). \<forall>c b. e \<noteq> Respond c b"
      using writeFile_no_response[OF wf] "3.prems"(2) by auto
    consider (first_asc) "i = 0" "filepath_Ext (FileName p) = ''.asc''"
      | (first_failed) err where "i = 0" "filepath_Ext (FileName p) \<noteq> ''.asc''" "res = Inl err"
      | (first_written) f where "i = 0" "filepath_Ext (FileName p) \<noteq> ''.asc''" "res = Inr f"
      | (second_asc) "i = 1" "filepath_Ext (FileName p) = ''.asc''"
      | (second_other) "i = 1" "filepath_Ext (FileName p) \<noteq> ''.asc''"
      | (third) "i = 2"
      | (later) "i \<noteq> 0" "i \<noteq> 1" "i \<noteq> 2"
      by (cases res) auto
    then show ?thesis
    proof cases
      case first_asc
      then show ?thesis using Inr "3.prems" by (auto simp: status_append_fs)
    next
      case first_failed
      then show ?thesis using Inr wf nr "3.prems" by (auto simp: status_append_fs)
    next
      case first_written
      have "readParts s compression rest (i + 1)
              (up\<lparr>pluginPath := f, checkSum := Sum256 s b\<rparr>) (effs @ w) = Inl out"
        using "3.prems"(1) Inr wf first_written by simp
      from "3.IH"(1)[OF Inr first_written(1,2) wf[symmetric] first_written(3) this nr]
      show ?thesis .
    next
      case second_asc
      have ne: "i \<noteq> 0" using second_asc(1) by simp
      have "readParts s compression rest (i + 1) (up\<lparr>signature := Some b\<rparr>) effs = Inl out"
        using "3.prems"(1) Inr second_asc by simp
      from "3.IH"(2)[OF Inr ne second_asc(1,2) this "3.prems"(2)]
      show ?thesis .
    next
      case second_other
      then show ?thesis using Inr "3.prems" by (auto simp: status_append_fs)
    next
      case third
      then show ?thesis using Inr "3.prems" by (auto simp: status_append_fs)
    next
      case later
      have "readParts s compression rest (i + 1) up effs = Inl out"
        using "3.prems"(1) Inr later by simp
      from "3.IH"(3)[OF Inr later this "3.prems"(2)]
      show ?thesis .
    qed
  qed
qed

text \<open>The loop does not reach \<open>io.EOF\<close> when there are more than two parts.\<close>

lemma readParts_too_many:
  assumes "2 < length ps + i" and "i \<le> 2"
  shows "\<exists>out. readParts s c ps i up effs = Inl out"
  using assms
proof (induction ps arbitrary: i up effs)
  case Nil
  then show ?case by simp
next
  case (Cons np ps)
  show ?case
  proof (cases np)
    case (NextPartError err)
    then show ?thesis by simp
  next
    case (NextPart p)
    show ?thesis
    proof (cases "readBody c p")
      case (Inl failed)
      then show ?thesis using NextPart by (cases failed) simp
    next
      case (Inr b)
      obtain w res where wf: "writeFile s (FileName p) b = (w, res)" by fastforce
      consider (zero) "i = 0" | (one) "i = 1" | (two) "i = 2"
        using Cons.prems(2) by linarith
      then show ?thesis
      proof cases
        case zero
        have "\<exists>out. readParts s c ps 1 up' effs' = Inl out" for up' effs'
          using Cons.IH[of 1 up' effs'] Cons.prems zero by simp
        then show ?thesis using NextPart Inr wf zero by (cases res) auto
      next
        case one
        have "\<exists>out. readParts s c ps (Suc (Suc 0)) up' effs' = Inl out" for up' effs'
          using Cons.IH[of 2 up' effs'] Cons.prems one by (simp add: numeral_2_eq_2)
        then show ?thesis using NextPart Inr one by auto
      next
        case two
        then show ?thesis using NextPart Inr by simp
      qed
    qed
  qed
qed

lemma readParts_first_asc:
  assumes "filepath_Ext (FileName p1) = ''.asc''"
  shows "\<exists>out. readParts s c (NextPart p1 # rest) 0 up effs = Inl out"
  using assms by (cases "readBody c p1") (auto split: prod.splits)

lemma readParts_second_not_asc:
  assumes "filepath_Ext (FileName p2) \<noteq> ''.asc''"
  shows "\<exists>out. readParts s c (n1 # NextPart p2 # rest) 0 up effs = Inl out"
proof (cases n1)
  case (NextPartError err)
  then show ?thesis by simp
next
  case (NextPart p1)
  have second: "\<exists>out. readParts s c (NextPart p2 # rest) 1 up' effs' = Inl out" for up' effs'
    using assms by (cases "readBody c p2") (auto split: prod.splits)
  show ?thesis
  proof (cases "readBody c p1")
    case (Inl failed)
    then show ?thesis using NextPart by (cases failed) simp
  next
    case (Inr b)
    obtain w res where wf: "writeFile s (FileName p1) b = (w, res)" by fastforce
    show ?thesis using NextPart Inr wf second by (cases res) auto
  qed
qed

lemma loadPlugin_rejected_upload:
  assumes "ContentType r = Inr mt" "HasPrefix mt ''multipart/''"
    and "readParts s (PluginCompression r) (Parts r) 0 noUpload [] = Inl out"
  shows "loadPlugin s r = out" and "status (loadPlugin s r) = Some 500"
proof -
  show l: "loadPlugin s r = out" using assms by (simp add: loadPlugin_def)
  show "status (loadPlugin s r) = Some 500"
    unfolding l using readParts_returns_500[OF assms(3)] by simp
qed

text \<open>
  \<open>swapPlugins\<close> and \<open>loadPlugin\<close> reject the same uploads with the same
  responses.
\<close>

lemma swapPlugins_same_rejections:
  assumes "readParts s (PluginCompression r) (Parts r) 0 noUpload [] = Inl out
           \<or> (\<exists>up effs resp. readParts s (PluginCompression r) (Parts r) 0 noUpload [] = Inr (up, effs)
                 \<and> requestPlugin s up = Inl resp)"
  shows "swapPlugins s r = loadPlugin s r"
  using assms
  by (auto simp: swapPlugins_def loadPlugin_def split: sum.splits)

text \<open>The upload loop on one part, and on two in order.\<close>

lemma readParts_one:
  assumes "readBody c p1 = Inr b1" "filepath_Ext (FileName p1) \<noteq> ''.asc''"
    "writeFile s (FileName p1) b1 = (w, Inr f)"
  shows "readParts s c [NextPart p1] 0 noUpload [] =
     Inr (\<lparr>pluginPath = f, signature = None, checkSum = Sum256 s b1\<rparr>, w)"
  using assms by (simp add: noUpload_def)

lemma readParts_two:
  assumes "readBody c p1 = Inr b1" "filepath_Ext (FileName p1) \<noteq> ''.asc''"
    "writeFile s (FileName p1) b1 = (w, Inr f)"
    "readBody c p2 = Inr b2" "filepath_Ext (FileName p2) = ''.asc''"
  shows "readParts s c [NextPart p1, NextPart p2] 0 noUpload [] =
     Inr (\<lparr>pluginPath = f, signature = Some b2, checkSum = Sum256 s b1\<rparr>, w)"
  using assms by (simp add: noUpload_def)

text \<open>The handlers once the loop has ended at \<open>io.EOF\<close>.\<close>

lemma loadPlugin_after_upload:
  assumes "ContentType r = Inr mt" "HasPrefix mt ''multipart/''"
    and "readParts s (PluginCompression r) (Parts r) 0 noUpload [] =
           Inr (\<lparr>pluginPath = f, signature = sg, checkSum = cs\<rparr>, w)"
    and "\<forall>e\<in>set w. \<forall>c b. e \<noteq> Respond c b"
  shows "(\<forall>err. NewRequestedPlugin s f = Inl err \<longrightarrow> status (loadPlugin s r) = Some 500)
       \<and> (\<forall>onDisk. NewRequestedPlugin s f = Inr onDisk \<and> onDisk \<noteq> cs
             \<longrightarrow> status (loadPlugin s r) = Some 500)
       \<and> (NewRequestedPlugin s f = Inr cs \<longrightarrow>
            (case Load s \<lparr>Path = f, CheckSum = cs, Signature = sg\<rparr> of
               Inl err \<Rightarrow>
                 loadPlugin s r =
                   w @ [RemoveAllDir (filepath_Dir f),
                        Respond (if ResponseBodyMessage s (FromError s err) = PluginAlreadyLoaded
                                 then 409 else 500)
                          (ErrorBody (FromError s err))]
             | Inr pl \<Rightarrow>
                 loadPlugin s r =
                   w @ [Respond 201 (PluginsLoadedBody [catalogedPluginToLoaded s (Host r) pl])]))"
  using assms
  by (auto simp: loadPlugin_def requestPlugin_def Let_def status_append_fs split: sum.splits)

text \<open>
  For a file name that is a single path element, in a temporary directory whose path is
  rooted and clean, \<open>writeFile\<close> puts the file into that directory, with mode 0700
  unless on Windows, and returns a path whose directory is the temporary directory.
\<close>

lemma writeFile_plain:
  assumes "plainName fn" and "TempDir s = Inr dir"
    and "dir = CHR ''/'' # Join es ''/''" "es \<noteq> []" "\<forall>e\<in>set es. plainName e"
    and "writeFile s fn b = (w, Inr f)"
  shows "f = dir @ ''/'' @ fn" and "filepath_Dir f = dir"
    and "w = [MkTempDir dir, CreateFile f, WriteBytes f b]
           @ (if windows s then [] else [ChmodFile f 448]) @ [CloseFile f]"
proof -
  note pj = path_Join_plain[OF assms(3,4,5,1)]
  show f: "f = dir @ ''/'' @ fn"
    using assms(2,6) pj
    by (auto simp: writeFile_def Let_def split: option.splits if_splits)
  show "filepath_Dir f = dir"
    unfolding f by (rule filepath_Dir_plain[OF assms(3,4,5,1)])
  show "w = [MkTempDir dir, CreateFile f, WriteBytes f b]
           @ (if windows s then [] else [ChmodFile f 448]) @ [CloseFile f]"
    using assms(2,6) pj
    by (auto simp: writeFile_def Let_def split: option.splits if_splits)
qed

text \<open>
  With such a file name, a load request whose binary has been written and whose
  \<open>Load\<close> fails ends with the removal of the temporary directory and the response.
\<close>

lemma loadPlugin_failed_load_plain:
  assumes "ContentType r = Inr mt" "HasPrefix mt ''multipart/''"
    and "Parts r = [NextPart p1] \<and> sg = None
         \<or> (\<exists>p2 b2. Parts r = [NextPart p1, NextPart p2]
               \<and> filepath_Ext (FileName p2) = ''.asc''
               \<and> readBody (PluginCompression r) p2 = Inr b2 \<and> sg = Some b2)"
    and "filepath_Ext (FileName p1) \<noteq> ''.asc''"
    and "readBody (PluginCompression r) p1 = Inr b1"
    and "plainName (FileName p1)" and "TempDir s = Inr dir"
    and "dir = CHR ''/'' # Join es ''/''" "es \<noteq> []" "\<forall>e\<in>set es. plainName e"
    and "writeFile s (FileName p1) b1 = (w, Inr f)"
    and "NewRequestedPlugin s f = Inr (Sum256 s b1)"
    and "Load s \<lparr>Path = f, CheckSum = Sum256 s b1, Signature = sg\<rparr> = Inl err"
  shows "loadPlugin s r =
     w @ [RemoveAllDir dir,
          Respond (if ResponseBodyMessage s (FromError s err) = PluginAlreadyLoaded
                   then 409 else 500)
            (ErrorBody (FromError s err))]"
proof -
  have eof: "readParts s (PluginCompression r) (Parts r) 0 noUpload [] =
       Inr (\<lparr>pluginPath = f, signature = sg, checkSum = Sum256 s b1\<rparr>, w)"
    using assms(3,4,5,11) readParts_one[of "PluginCompression r" p1 b1 s w f]
      readParts_two[of "PluginCompression r" p1 b1 s w f]
    by auto
  have dir: "filepath_Dir f = dir"
    by (rule writeFile_plain(2)[OF assms(6,7,8,9,10,11)])
  from loadPlugin_after_upload[OF assms(1,2) eof writeFile_no_response[OF assms(11)]]
  show ?thesis using assms(12,13) dir by simp
qed

text \<open>What \<open>p.FileName()\<close> can be.\<close>

lemma FileName_cases:
  "FileName p = [] \<or> FileName p = ''.'' \<or> FileName p = ''..'' \<or> FileName p = ''/''
   \<or> plainName (FileName p)"
proof (cases "disposition_filename p = []")
  case True
  then show ?thesis by (simp add: FileName_def)
next
  case False
  define stripped where
    "stripped = rev (dropWhile (\<lambda>c. c = CHR ''/'') (rev (disposition_filename p)))"
  define last_elem where
    "last_elem = rev (takeWhile (\<lambda>c. c \<noteq> CHR ''/'') (rev stripped))"
  have fn: "FileName p = (if last_elem = [] then ''/'' else last_elem)"
    using False by (simp add: FileName_def filepath_Base_def Let_def stripped_def last_elem_def)
  have "CHR ''/'' \<notin> set last_elem"
    unfolding last_elem_def using set_takeWhileD[of "CHR ''/''" "\<lambda>c. c \<noteq> CHR ''/''" "rev stripped"]
    by auto
  then show ?thesis unfolding fn by (auto simp: plainName_def)
qed

text \<open>What \<open>writeFile\<close> has done when it returns a path.\<close>

lemma writeFile_path:
  assumes "writeFile s fn b = (w, Inr f)" and "TempDir s = Inr dir"
  shows "f = path_Join dir fn" and "Create s f = None"
    and "w = [MkTempDir dir, CreateFile f, WriteBytes f b]
           @ (if windows s then [] else [ChmodFile f 448]) @ [CloseFile f]"
  using assms by (auto simp: writeFile_def Let_def split: option.splits if_splits)

text \<open>
  On a file system that creates no file over a directory, \<open>writeFile\<close> returns a path
  for the file name of a part only when that name is a single path element, and then the
  file is the one of that name in the temporary directory.
\<close>

lemma writeFile_FileName:
  assumes "TempDir s = Inr dir" and "dir \<noteq> []"
    and "Create s (Clean dir) \<noteq> None" and "Create s (path_Join dir ''..'') \<noteq> None"
    and "writeFile s (FileName p) b = (w, Inr f)"
  shows "plainName (FileName p)" and "f = path_Join dir (FileName p)"
    and "filepath_Dir f = Clean dir" and "filepath_Base f = FileName p"
    and "w = [MkTempDir dir, CreateFile f, WriteBytes f b]
           @ (if windows s then [] else [ChmodFile f 448]) @ [CloseFile f]"
proof -
  note wp = writeFile_path[OF assms(5,1)]
  show f: "f = path_Join dir (FileName p)" by (rule wp(1))
  show "w = [MkTempDir dir, CreateFile f, WriteBytes f b]
           @ (if windows s then [] else [ChmodFile f 448]) @ [CloseFile f]" by (rule wp(3))
  have created: "Create s (path_Join dir (FileName p)) = None" using wp(2) f by simp
  have "\<not> (FileName p = [] \<or> FileName p = ''.'' \<or> FileName p = ''/'')"
  proof
    assume "FileName p = [] \<or> FileName p = ''.'' \<or> FileName p = ''/''"
    from path_Join_dir_itself[OF assms(2) this] show False
      using created assms(3) by simp
  qed
  moreover have "FileName p \<noteq> ''..''" using created assms(4) by auto
  ultimately show pl: "plainName (FileName p)" using FileName_cases[of p] by blast
  show "filepath_Dir f = Clean dir" unfolding f by (rule path_Join_in_dir(1)[OF assms(2) pl])
  show "filepath_Base f = FileName p" unfolding f by (rule path_Join_in_dir(2)[OF assms(2) pl])
qed

text \<open>
  After the first part the loop changes neither \<open>pluginPath\<close> nor \<open>checkSum\<close> and
  touches no file; when it ends at \<open>io.EOF\<close> after at least one part, the first part
  has been written.
\<close>

lemma readParts_later:
  assumes "i \<noteq> 0" and "readParts s c ps i up effs = Inr (up', effs')"
  shows "pluginPath up' = pluginPath up \<and> checkSum up' = checkSum up \<and> effs' = effs"
  using assms
proof (induction s c ps i up effs rule: readParts.induct)
  case (1 s compression i up effs)
  then show ?case by simp
next
  case (2 s compression err rest i up effs)
  then show ?case by simp
next
  case (3 s compression p rest i up effs)
  show ?case
  proof (cases "readBody compression p")
    case (Inl failed)
    then show ?thesis using "3.prems" by (cases failed) simp
  next
    case (Inr b)
    consider (second_asc) "i = 1" "filepath_Ext (FileName p) = ''.asc''"
      | (second_other) "i = 1" "filepath_Ext (FileName p) \<noteq> ''.asc''"
      | (third) "i = 2"
      | (later) "i \<noteq> 0" "i \<noteq> 1" "i \<noteq> 2"
      using "3.prems"(1) by auto
    then show ?thesis
    proof cases
      case second_asc
      have r: "readParts s compression rest (i + 1) (up\<lparr>signature := Some b\<rparr>) effs
                 = Inr (up', effs')"
        using "3.prems"(2) Inr second_asc by simp
      have "i + 1 \<noteq> 0" by simp
      from "3.IH"(2)[OF Inr "3.prems"(1) second_asc(1,2) this r]
      show ?thesis by simp
    next
      case second_other
      then show ?thesis using "3.prems"(2) Inr by simp
    next
      case third
      then show ?thesis using "3.prems"(2) Inr by simp
    next
      case later
      have r: "readParts s compression rest (i + 1) up effs = Inr (up', effs')"
        using "3.prems"(2) Inr later by simp
      have "i + 1 \<noteq> 0" by simp
      from "3.IH"(3)[OF Inr later this r]
      show ?thesis by simp
    qed
  qed
qed

lemma readParts_written:
  assumes "readParts s c (NextPart p1 # rest) 0 up effs = Inr (up', effs')"
  shows "\<exists>b1 w f. readBody c p1 = Inr b1 \<and> filepath_Ext (FileName p1) \<noteq> ''.asc''
           \<and> writeFile s (FileName p1) b1 = (w, Inr f)
           \<and> pluginPath up' = f \<and> checkSum up' = Sum256 s b1 \<and> effs' = effs @ w"
proof (cases "readBody c p1")
  case (Inl failed)
  then show ?thesis using assms by (cases failed) simp
next
  case (Inr b1)
  have ext: "filepath_Ext (FileName p1) \<noteq> ''.asc''"
    using assms Inr by auto
  obtain w res where wf: "writeFile s (FileName p1) b1 = (w, res)" by fastforce
  show ?thesis
  proof (cases res)
    case (Inl err)
    then show ?thesis using assms Inr ext wf by simp
  next
    case (Inr f)
    have r: "readParts s c rest 1 (up\<lparr>pluginPath := f, checkSum := Sum256 s b1\<rparr>) (effs @ w)
               = Inr (up', effs')"
      using assms \<open>readBody c p1 = Inr b1\<close> ext wf Inr by simp
    have "(1::nat) \<noteq> 0" by simp
    from readParts_later[OF this r]
    show ?thesis using \<open>readBody c p1 = Inr b1\<close> ext wf Inr by simp
  qed
qed

text \<open>Every response of the loop has the code 500, and it responds only when it returns.\<close>

lemma readParts_codes:
  assumes "\<forall>e\<in>set effs. \<forall>c b. e \<noteq> Respond c b"
  shows "case readParts s c ps i up effs of
           Inl out \<Rightarrow> (\<forall>code b. Respond code b \<in> set out \<longrightarrow> code = 500)
         | Inr (up', effs') \<Rightarrow> (\<forall>e\<in>set effs'. \<forall>c b. e \<noteq> Respond c b)"
  using assms
proof (induction s c ps i up effs rule: readParts.induct)
  case (1 s compression i up effs)
  then show ?case by simp
next
  case (2 s compression err rest i up effs)
  then show ?case by (auto simp: respondError_def)
next
  case (3 s compression p rest i up effs)
  show ?case
  proof (cases "readBody compression p")
    case (Inl failed)
    then show ?thesis using "3.prems" by (cases failed) (auto simp: respondError_def)
  next
    case (Inr b)
    obtain w res where wf: "writeFile s (FileName p) b = (w, res)" by fastforce
    have nr: "\<forall>e\<in>set (effs @ w). \<forall>c b. e \<noteq> Respond c b"
      using writeFile_no_response[OF wf] "3.prems" by auto
    consider (first_asc) "i = 0" "filepath_Ext (FileName p) = ''.asc''"
      | (first_failed) err where "i = 0" "filepath_Ext (FileName p) \<noteq> ''.asc''" "res = Inl err"
      | (first_written) f where "i = 0" "filepath_Ext (FileName p) \<noteq> ''.asc''" "res = Inr f"
      | (second_asc) "i = 1" "filepath_Ext (FileName p) = ''.asc''"
      | (second_other) "i = 1" "filepath_Ext (FileName p) \<noteq> ''.asc''"
      | (third) "i = 2"
      | (later) "i \<noteq> 0" "i \<noteq> 1" "i \<noteq> 2"
      by (cases res) auto
    then show ?thesis
    proof cases
      case first_asc
      then show ?thesis using Inr "3.prems" by (auto simp: respondError_def)
    next
      case first_failed
      then show ?thesis using Inr wf nr by (auto simp: respondError_def)
    next
      case first_written
      from "3.IH"(1)[OF Inr first_written(1,2) wf[symmetric] first_written(3) nr]
      show ?thesis using wf first_written Inr by simp
    next
      case second_asc
      have "i \<noteq> 0" using second_asc(1) by simp
      from "3.IH"(2)[OF Inr this second_asc(1,2) "3.prems"]
      show ?thesis using second_asc Inr by simp
    next
      case second_other
      then show ?thesis using Inr "3.prems" by (auto simp: respondError_def)
    next
      case third
      then show ?thesis using Inr "3.prems" by (auto simp: respondError_def)
    next
      case later
      from "3.IH"(3)[OF Inr later "3.prems"]
      show ?thesis using later Inr by simp
    qed
  qed
qed

lemma loadPlugin_codes:
  assumes "Respond code b \<in> set (loadPlugin s r)"
  shows "code = 201 \<or> code = 409 \<or> code = 500"
proof (cases "ContentType r")
  case (Inl err)
  then show ?thesis using assms by (simp add: loadPlugin_def respondError_def)
next
  case (Inr mt)
  show ?thesis
  proof (cases "HasPrefix mt ''multipart/''")
    case False
    then show ?thesis using assms Inr by (simp add: loadPlugin_def)
  next
    case True
    have rp: "case readParts s (PluginCompression r) (Parts r) 0 noUpload [] of
                Inl out \<Rightarrow> (\<forall>code b. Respond code b \<in> set out \<longrightarrow> code = 500)
              | Inr (up', effs') \<Rightarrow> (\<forall>e\<in>set effs'. \<forall>c b. e \<noteq> Respond c b)"
      by (rule readParts_codes) simp
    show ?thesis
    proof (cases "readParts s (PluginCompression r) (Parts r) 0 noUpload []")
      case (Inl out)
      then show ?thesis using assms Inr True rp by (auto simp: loadPlugin_def)
    next
      case eof: (Inr res)
      obtain up effs where res: "res = (up, effs)" by (cases res)
      have quiet: "Respond code b \<notin> set effs" using rp eof res by auto
      show ?thesis
      proof (cases "requestPlugin s up")
        case (Inl resp)
        then have "\<exists>err. resp = respondError s 500 err"
          by (auto simp: requestPlugin_def split: sum.splits if_splits)
        then show ?thesis
          using assms Inr True eof res Inl quiet
          by (auto simp: loadPlugin_def respondError_def)
      next
        case rp': (Inr rp)
        show ?thesis
        proof (cases "Load s rp")
          case (Inl err)
          then show ?thesis
            using assms Inr True eof res rp' quiet
            by (auto simp: loadPlugin_def Let_def split: if_splits)
        next
          case loaded: (Inr pl)
          then show ?thesis
            using assms Inr True eof res rp' quiet
            by (auto simp: loadPlugin_def)
        qed
      qed
    qed
  qed
qed

text \<open>
  In \<open>swapPlugins\<close> the failure of \<open>SwapPlugins\<close> decides that the handler takes the
  error branch, and nothing else: two servers that differ only in the failure returned
  do the same.
\<close>

lemma swapPlugins_failure_not_read:
  "swapPlugins (s\<lparr>SwapPlugins := \<lambda>_ _. Inl se\<rparr>) r = swapPlugins (s\<lparr>SwapPlugins := \<lambda>_ _. Inl se'\<rparr>) r"
proof -
  have wf: "writeFile (s\<lparr>SwapPlugins := g\<rparr>) fn b = writeFile s fn b" for g fn b
    by (simp add: writeFile_def Let_def split: sum.splits option.splits)
  have re: "respondError (s\<lparr>SwapPlugins := g\<rparr>) c e = respondError s c e" for g c e
    by (simp add: respondError_def)
  have rp: "readParts (s\<lparr>SwapPlugins := g\<rparr>) c ps i up effs = readParts s c ps i up effs"
    for g c ps i up effs
  proof (induction ps arbitrary: i up effs)
    case Nil
    show ?case by simp
  next
    case (Cons p ps)
    show ?case
    proof (cases p)
      case (NextPartError err)
      then show ?thesis by (simp add: re)
    next
      case (NextPart q)
      then show ?thesis
        by (simp add: re wf Cons.IH split: sum.splits prod.splits)
    qed
  qed
  have rq: "requestPlugin (s\<lparr>SwapPlugins := g\<rparr>) up = requestPlugin s up" for g up
    by (simp add: requestPlugin_def re split: sum.splits)
  have rt: "routePlugin (s\<lparr>SwapPlugins := g\<rparr>) r = routePlugin s r" for g
    by (simp add: routePlugin_def Let_def split: prod.splits)
  show ?thesis
    by (simp add: swapPlugins_def rp rq rt re split: sum.splits)
qed

section \<open>The properties\<close>

text \<open>
  C1, as amended. A multipart load request is answered 500 when its first part has the
  extension \<open>.asc\<close>, when its second part has another extension, and when it has more
  than two parts. When it has one part, or two with the signature second, and the first
  has been written to disk: it is answered 500 when the checksum read from disk differs
  from that of the bytes received; otherwise 201 with the loaded plugin when \<open>Load\<close>
  succeeds, 409 when \<open>Load\<close> fails and the body made of its error carries the message
  \<open>plugin is already loaded\<close>, and 500 when it fails otherwise. No response of the
  handler has a code other than 201, 409 and 500.
\<close>

theorem loadPlugin_responses:
  assumes "ContentType r = Inr mediaType" and "HasPrefix mediaType ''multipart/''"
  shows
    "(\<forall>p1 rest. Parts r = NextPart p1 # rest \<and> filepath_Ext (FileName p1) = ''.asc''
        \<longrightarrow> status (loadPlugin s r) = Some 500)
   \<and> (\<forall>n1 p2 rest. Parts r = n1 # NextPart p2 # rest \<and> filepath_Ext (FileName p2) \<noteq> ''.asc''
        \<longrightarrow> status (loadPlugin s r) = Some 500)
   \<and> (2 < length (Parts r) \<longrightarrow> status (loadPlugin s r) = Some 500)
   \<and> (\<forall>p1 b1 w f sg.
         filepath_Ext (FileName p1) \<noteq> ''.asc''
         \<and> readBody (PluginCompression r) p1 = Inr b1
         \<and> writeFile s (FileName p1) b1 = (w, Inr f)
         \<and> (Parts r = [NextPart p1] \<and> sg = None
            \<or> (\<exists>p2 b2. Parts r = [NextPart p1, NextPart p2]
                  \<and> filepath_Ext (FileName p2) = ''.asc''
                  \<and> readBody (PluginCompression r) p2 = Inr b2 \<and> sg = Some b2))
        \<longrightarrow> (\<forall>onDisk. NewRequestedPlugin s f = Inr onDisk \<and> onDisk \<noteq> Sum256 s b1
               \<longrightarrow> status (loadPlugin s r) = Some 500)
          \<and> (NewRequestedPlugin s f = Inr (Sum256 s b1) \<longrightarrow>
               (\<forall>pl. Load s \<lparr>Path = f, CheckSum = Sum256 s b1, Signature = sg\<rparr> = Inr pl
                  \<longrightarrow> loadPlugin s r =
                        w @ [Respond 201
                               (PluginsLoadedBody [catalogedPluginToLoaded s (Host r) pl])])
             \<and> (\<forall>err. Load s \<lparr>Path = f, CheckSum = Sum256 s b1, Signature = sg\<rparr> = Inl err
                  \<longrightarrow> status (loadPlugin s r) =
                        Some (if ResponseBodyMessage s (FromError s err) = PluginAlreadyLoaded
                              then 409 else 500))))
   \<and> (\<forall>code b. Respond code b \<in> set (loadPlugin s r)
        \<longrightarrow> code = 201 \<or> code = 409 \<or> code = 500)"
proof -
  note rejected = loadPlugin_rejected_upload(2)[OF assms]
  have c1: "\<forall>p1 rest. Parts r = NextPart p1 # rest \<and> filepath_Ext (FileName p1) = ''.asc''
        \<longrightarrow> status (loadPlugin s r) = Some 500"
    using rejected readParts_first_asc by metis
  have c2: "\<forall>n1 p2 rest. Parts r = n1 # NextPart p2 # rest \<and> filepath_Ext (FileName p2) \<noteq> ''.asc''
        \<longrightarrow> status (loadPlugin s r) = Some 500"
    using rejected readParts_second_not_asc by metis
  have c3: "2 < length (Parts r) \<longrightarrow> status (loadPlugin s r) = Some 500"
    using rejected readParts_too_many[of "Parts r" 0 s "PluginCompression r" noUpload "[]"]
    by auto
  have c4: "\<forall>p1 b1 w f sg.
         filepath_Ext (FileName p1) \<noteq> ''.asc''
         \<and> readBody (PluginCompression r) p1 = Inr b1
         \<and> writeFile s (FileName p1) b1 = (w, Inr f)
         \<and> (Parts r = [NextPart p1] \<and> sg = None
            \<or> (\<exists>p2 b2. Parts r = [NextPart p1, NextPart p2]
                  \<and> filepath_Ext (FileName p2) = ''.asc''
                  \<and> readBody (PluginCompression r) p2 = Inr b2 \<and> sg = Some b2))
        \<longrightarrow> (\<forall>onDisk. NewRequestedPlugin s f = Inr onDisk \<and> onDisk \<noteq> Sum256 s b1
               \<longrightarrow> status (loadPlugin s r) = Some 500)
          \<and> (NewRequestedPlugin s f = Inr (Sum256 s b1) \<longrightarrow>
               (\<forall>pl. Load s \<lparr>Path = f, CheckSum = Sum256 s b1, Signature = sg\<rparr> = Inr pl
                  \<longrightarrow> loadPlugin s r =
                        w @ [Respond 201
                               (PluginsLoadedBody [catalogedPluginToLoaded s (Host r) pl])])
             \<and> (\<forall>err. Load s \<lparr>Path = f, CheckSum = Sum256 s b1, Signature = sg\<rparr> = Inl err
                  \<longrightarrow> status (loadPlugin s r) =
                        Some (if ResponseBodyMessage s (FromError s err) = PluginAlreadyLoaded
                              then 409 else 500)))"
  proof (intro allI, rule impI)
    fix p1 b1 w f sg
    assume a: "filepath_Ext (FileName p1) \<noteq> ''.asc''
         \<and> readBody (PluginCompression r) p1 = Inr b1
         \<and> writeFile s (FileName p1) b1 = (w, Inr f)
         \<and> (Parts r = [NextPart p1] \<and> sg = None
            \<or> (\<exists>p2 b2. Parts r = [NextPart p1, NextPart p2]
                  \<and> filepath_Ext (FileName p2) = ''.asc''
                  \<and> readBody (PluginCompression r) p2 = Inr b2 \<and> sg = Some b2))"
    then have wf: "writeFile s (FileName p1) b1 = (w, Inr f)" by simp
    have eof: "readParts s (PluginCompression r) (Parts r) 0 noUpload [] =
       Inr (\<lparr>pluginPath = f, signature = sg, checkSum = Sum256 s b1\<rparr>, w)"
      using a readParts_one[of "PluginCompression r" p1 b1 s w f]
        readParts_two[of "PluginCompression r" p1 b1 s w f]
      by auto
    note after = loadPlugin_after_upload[OF assms eof writeFile_no_response[OF wf]]
    have d1: "\<forall>onDisk. NewRequestedPlugin s f = Inr onDisk \<and> onDisk \<noteq> Sum256 s b1
               \<longrightarrow> status (loadPlugin s r) = Some 500"
      using after by blast
    have d2: "\<forall>pl. Load s \<lparr>Path = f, CheckSum = Sum256 s b1, Signature = sg\<rparr> = Inr pl
                  \<longrightarrow> loadPlugin s r =
                        w @ [Respond 201
                               (PluginsLoadedBody [catalogedPluginToLoaded s (Host r) pl])]"
      if same: "NewRequestedPlugin s f = Inr (Sum256 s b1)"
      using after same by auto
    have d3: "\<forall>err. Load s \<lparr>Path = f, CheckSum = Sum256 s b1, Signature = sg\<rparr> = Inl err
                  \<longrightarrow> status (loadPlugin s r) =
                        Some (if ResponseBodyMessage s (FromError s err) = PluginAlreadyLoaded
                              then 409 else 500)"
      if same: "NewRequestedPlugin s f = Inr (Sum256 s b1)"
      using after same status_written[OF wf] by auto
    show "(\<forall>onDisk. NewRequestedPlugin s f = Inr onDisk \<and> onDisk \<noteq> Sum256 s b1
               \<longrightarrow> status (loadPlugin s r) = Some 500)
          \<and> (NewRequestedPlugin s f = Inr (Sum256 s b1) \<longrightarrow>
               (\<forall>pl. Load s \<lparr>Path = f, CheckSum = Sum256 s b1, Signature = sg\<rparr> = Inr pl
                  \<longrightarrow> loadPlugin s r =
                        w @ [Respond 201
                               (PluginsLoadedBody [catalogedPluginToLoaded s (Host r) pl])])
             \<and> (\<forall>err. Load s \<lparr>Path = f, CheckSum = Sum256 s b1, Signature = sg\<rparr> = Inl err
                  \<longrightarrow> status (loadPlugin s r) =
                        Some (if ResponseBodyMessage s (FromError s err) = PluginAlreadyLoaded
                              then 409 else 500)))"
      using d1 d2 d3 by blast
  qed
  have c5: "\<forall>code b. Respond code b \<in> set (loadPlugin s r)
        \<longrightarrow> code = 201 \<or> code = 409 \<or> code = 500"
    using loadPlugin_codes by blast
  show ?thesis
    by (intro conjI) (rule c1, rule c2, rule c3, rule c4, rule c5)
qed

theorem loadPlugin_responses_witness:
  "loadPlugin emptyServer (uploadOf [filePart ''snap-collector-mock1'' ''ELF'']) =
     [MkTempDir ''/tmp/123'', CreateFile ''/tmp/123/snap-collector-mock1'',
      WriteBytes ''/tmp/123/snap-collector-mock1'' ''ELF'',
      ChmodFile ''/tmp/123/snap-collector-mock1'' 448,
      CloseFile ''/tmp/123/snap-collector-mock1'',
      Respond 201 (PluginsLoadedBody
        [\<lparr>lp_Name = ''mock'', lp_Version = 1, lp_Type = ''collector'', lp_Signed = False,
          lp_Status = ''loaded'', lp_LoadedTimestamp = 0,
          lp_Href = ''http://localhost:8181/v1/plugins/collector/mock/1''\<rparr>])]"
proof -
  let ?p = "filePart ''snap-collector-mock1'' ''ELF''"
  let ?r = "uploadOf [?p]"
  let ?f = "''/tmp/123/snap-collector-mock1''"
  have h1: "ContentType ?r = Inr ''multipart/form-data''" by (simp add: uploadOf_def)
  have h2: "HasPrefix ''multipart/form-data'' ''multipart/''" by (simp add: HasPrefix_def)
  have h3: "Parts ?r = [NextPart ?p]" by (simp add: uploadOf_def)
  have ext: "filepath_Ext (FileName ?p) \<noteq> ''.asc''" by code_simp
  have body: "readBody (PluginCompression ?r) ?p = Inr ''ELF''"
    by (simp add: uploadOf_def readBody_def filePart_def)
  have wf: "writeFile emptyServer (FileName ?p) ''ELF'' =
     ([MkTempDir ''/tmp/123'', CreateFile ?f, WriteBytes ?f ''ELF'', ChmodFile ?f 448,
       CloseFile ?f], Inr ?f)"
    by code_simp
  have nrp: "NewRequestedPlugin emptyServer ?f = Inr (Sum256 emptyServer ''ELF'')"
    by (simp add: emptyServer_def)
  have ld: "Load emptyServer \<lparr>Path = ?f, CheckSum = Sum256 emptyServer ''ELF'', Signature = None\<rparr>
     = Inr mockCollector"
    by (simp add: emptyServer_def)
  have href: "catalogedPluginToLoaded emptyServer (Host ?r) mockCollector =
     \<lparr>lp_Name = ''mock'', lp_Version = 1, lp_Type = ''collector'', lp_Signed = False,
          lp_Status = ''loaded'', lp_LoadedTimestamp = 0,
          lp_Href = ''http://localhost:8181/v1/plugins/collector/mock/1''\<rparr>"
    by code_simp
  from loadPlugin_responses[OF h1 h2, of emptyServer] h3 ext body wf nrp ld
  have "loadPlugin emptyServer ?r =
     [MkTempDir ''/tmp/123'', CreateFile ?f, WriteBytes ?f ''ELF'', ChmodFile ?f 448,
       CloseFile ?f]
     @ [Respond 201 (PluginsLoadedBody [catalogedPluginToLoaded emptyServer (Host ?r) mockCollector])]"
    by blast
  then show ?thesis using href by simp
qed

theorem loadPlugin_order_violation_is_500:
  "loadPlugin emptyServer (uploadOf [filePart ''snap-collector-mock1.asc'' ''sig'']) =
     [Respond 500 (ErrorBody
        \<lparr>ErrorMessage = ''Error: first file passed to load plugin api can not be signature file'',
         ErrorFields = []\<rparr>)]"
  by code_simp

text \<open>
  C2, as amended. The unload handler responds 400 when the version parameter does not
  parse as an integer or the name or the type is empty. Otherwise it responds 500 with a
  body made of the failure whenever \<open>Unload\<close> fails, and 200 with the name, version and
  type of the plugin that \<open>Unload\<close> returns. It responds with no other code: a plugin
  that is not present is answered 500, not 404.
\<close>

theorem unloadPlugin_responses:
  "(snd (ParseInt (ByName r ''version'')) \<noteq> None \<or> ByName r ''name'' = []
      \<or> ByName r ''type'' = []
     \<longrightarrow> status (unloadPlugin s r) = Some 400)
   \<and> (snd (ParseInt (ByName r ''version'')) = None \<and> ByName r ''name'' \<noteq> []
      \<and> ByName r ''type'' \<noteq> []
     \<longrightarrow> (\<forall>se. Unload s \<lparr>name = ByName r ''name'',
                           version = fst (ParseInt (ByName r ''version'')),
                           pluginType = ByName r ''type''\<rparr> = Inl se
            \<longrightarrow> unloadPlugin s r =
                  [Respond 500 (ErrorBody (FromSnapError s (se\<lparr>se_fields := routeFields r\<rparr>)))])
       \<and> (\<forall>up. Unload s \<lparr>name = ByName r ''name'',
                           version = fst (ParseInt (ByName r ''version'')),
                           pluginType = ByName r ''type''\<rparr> = Inr up
            \<longrightarrow> unloadPlugin s r =
                  [Respond 200 (PluginUnloadedBody
                     \<lparr>pu_Name = PluginName up, pu_Version = PluginVersion up,
                      pu_Type = TypeName up\<rparr>)]))
   \<and> (\<forall>code b. Respond code b \<in> set (unloadPlugin s r)
        \<longrightarrow> code = 200 \<or> code = 400 \<or> code = 500)"
proof -
  have c1: "snd (ParseInt (ByName r ''version'')) \<noteq> None \<or> ByName r ''name'' = []
      \<or> ByName r ''type'' = []
     \<longrightarrow> status (unloadPlugin s r) = Some 400"
    using unloadPlugin_400 by blast
  have c2: "snd (ParseInt (ByName r ''version'')) = None \<and> ByName r ''name'' \<noteq> []
      \<and> ByName r ''type'' \<noteq> []
     \<longrightarrow> (\<forall>se. Unload s \<lparr>name = ByName r ''name'',
                           version = fst (ParseInt (ByName r ''version'')),
                           pluginType = ByName r ''type''\<rparr> = Inl se
            \<longrightarrow> unloadPlugin s r =
                  [Respond 500 (ErrorBody (FromSnapError s (se\<lparr>se_fields := routeFields r\<rparr>)))])
       \<and> (\<forall>up. Unload s \<lparr>name = ByName r ''name'',
                           version = fst (ParseInt (ByName r ''version'')),
                           pluginType = ByName r ''type''\<rparr> = Inr up
            \<longrightarrow> unloadPlugin s r =
                  [Respond 200 (PluginUnloadedBody
                     \<lparr>pu_Name = PluginName up, pu_Version = PluginVersion up,
                      pu_Type = TypeName up\<rparr>)])"
  proof
    assume a: "snd (ParseInt (ByName r ''version'')) = None \<and> ByName r ''name'' \<noteq> []
      \<and> ByName r ''type'' \<noteq> []"
    then have ok: "snd (ParseInt (ByName r ''version'')) = None" "ByName r ''name'' \<noteq> []"
      "ByName r ''type'' \<noteq> []"
      by simp_all
    show "(\<forall>se. Unload s \<lparr>name = ByName r ''name'',
                           version = fst (ParseInt (ByName r ''version'')),
                           pluginType = ByName r ''type''\<rparr> = Inl se
            \<longrightarrow> unloadPlugin s r =
                  [Respond 500 (ErrorBody (FromSnapError s (se\<lparr>se_fields := routeFields r\<rparr>)))])
       \<and> (\<forall>up. Unload s \<lparr>name = ByName r ''name'',
                           version = fst (ParseInt (ByName r ''version'')),
                           pluginType = ByName r ''type''\<rparr> = Inr up
            \<longrightarrow> unloadPlugin s r =
                  [Respond 200 (PluginUnloadedBody
                     \<lparr>pu_Name = PluginName up, pu_Version = PluginVersion up,
                      pu_Type = TypeName up\<rparr>)])"
      by (simp add: unloadPlugin_rest[OF ok])
  qed
  have c3: "\<forall>code b. Respond code b \<in> set (unloadPlugin s r)
        \<longrightarrow> code = 200 \<or> code = 400 \<or> code = 500"
    using unloadPlugin_codes by blast
  show ?thesis
    by (intro conjI) (rule c1, rule c2, rule c3)
qed

theorem unloadPlugin_responses_witness:
  "unloadPlugin (emptyServer\<lparr>Unload := \<lambda>_. Inr mockCollector\<rparr>) deleteMock =
     [Respond 200 (PluginUnloadedBody
        \<lparr>pu_Name = ''mock'', pu_Version = 1, pu_Type = ''collector''\<rparr>)]
   \<and> status (unloadPlugin emptyServer (deleteMock\<lparr>ByName := \<lambda>_. ''one''\<rparr>)) = Some 400"
proof -
  let ?s = "emptyServer\<lparr>Unload := \<lambda>_. Inr mockCollector\<rparr>"
  have v: "ParseInt (ByName deleteMock ''version'') = (1, None)" by code_simp
  have n: "ByName deleteMock ''name'' = ''mock''" "ByName deleteMock ''type'' = ''collector''"
    by (simp_all add: deleteMock_def mockRoute_def)
  have u: "Unload ?s \<lparr>name = ByName deleteMock ''name'',
                       version = fst (ParseInt (ByName deleteMock ''version'')),
                       pluginType = ByName deleteMock ''type''\<rparr> = Inr mockCollector"
    by simp
  have bad: "snd (ParseInt (ByName (deleteMock\<lparr>ByName := \<lambda>_. ''one''\<rparr>) ''version'')) \<noteq> None"
    by code_simp
  have "unloadPlugin ?s deleteMock =
     [Respond 200 (PluginUnloadedBody
        \<lparr>pu_Name = PluginName mockCollector, pu_Version = PluginVersion mockCollector,
         pu_Type = TypeName mockCollector\<rparr>)]"
    using unloadPlugin_responses[of deleteMock ?s] v n u by simp
  moreover have "status (unloadPlugin emptyServer (deleteMock\<lparr>ByName := \<lambda>_. ''one''\<rparr>)) = Some 400"
    using unloadPlugin_responses[of "deleteMock\<lparr>ByName := \<lambda>_. ''one''\<rparr>" emptyServer] bad
    by blast
  ultimately show ?thesis by (simp add: mockCollector_def)
qed

theorem unloadPlugin_absent_is_500:
  "unloadPlugin emptyServer deleteMock =
     [Respond 500 (ErrorBody
        \<lparr>ErrorMessage = ''plugin not found'',
         ErrorFields = [(''plugin-name'', FieldString ''mock''),
                        (''plugin-version'', FieldInt 1),
                        (''plugin-type'', FieldString ''collector'')]\<rparr>)]"
  by code_simp

text \<open>
  C3. On a file system that creates no file over a directory (\<open>os.Create\<close> fails on
  the temporary directory and on the directory above it), with \<open>dir\<close> the directory
  \<open>ioutil.TempDir\<close> has just made: whenever \<open>writeFile\<close> returns a path for the
  file name of a part, the file is the one of that name in \<open>dir\<close>, and it has been
  created, written, given the mode 0700 unless on Windows, and closed. For every load
  request with a first part whose upload loop has ended at \<open>io.EOF\<close>, whose requested
  plugin has passed the checksum comparison and whose \<open>Load\<close> fails, the handler has
  written the bytes of the first part to that file, then removes \<open>dir\<close> (its path
  cleaned, as \<open>filepath.Dir\<close> returns it) and only then responds, with 409 or 500.
\<close>

theorem loadPlugin_failed_load_removes_tempdir:
  assumes "TempDir s = Inr dir" and "dir \<noteq> []"
    and "Create s (Clean dir) \<noteq> None" and "Create s (path_Join dir ''..'') \<noteq> None"
  shows
    "(\<forall>p b w f. writeFile s (FileName p) b = (w, Inr f) \<longrightarrow>
        f = path_Join dir (FileName p) \<and> filepath_Dir f = Clean dir
        \<and> filepath_Base f = FileName p
        \<and> w = [MkTempDir dir, CreateFile f, WriteBytes f b]
              @ (if windows s then [] else [ChmodFile f 448]) @ [CloseFile f])
     \<and> (\<forall>r mt p1 rest up effs rp err.
          ContentType r = Inr mt \<and> HasPrefix mt ''multipart/''
          \<and> Parts r = NextPart p1 # rest
          \<and> readParts s (PluginCompression r) (Parts r) 0 noUpload [] = Inr (up, effs)
          \<and> requestPlugin s up = Inr rp \<and> Load s rp = Inl err \<longrightarrow>
          (\<exists>b1 f. readBody (PluginCompression r) p1 = Inr b1
             \<and> f = path_Join dir (FileName p1) \<and> filepath_Dir f = Clean dir
             \<and> filepath_Base f = FileName p1 \<and> Path rp = f
             \<and> loadPlugin s r =
                 [MkTempDir dir, CreateFile f, WriteBytes f b1]
                 @ (if windows s then [] else [ChmodFile f 448])
                 @ [CloseFile f, RemoveAllDir (Clean dir),
                    Respond (if ResponseBodyMessage s (FromError s err) = PluginAlreadyLoaded
                             then 409 else 500)
                      (ErrorBody (FromError s err))]))"
proof -
  have c1: "\<forall>p b w f. writeFile s (FileName p) b = (w, Inr f) \<longrightarrow>
        f = path_Join dir (FileName p) \<and> filepath_Dir f = Clean dir
        \<and> filepath_Base f = FileName p
        \<and> w = [MkTempDir dir, CreateFile f, WriteBytes f b]
              @ (if windows s then [] else [ChmodFile f 448]) @ [CloseFile f]"
    using writeFile_FileName[OF assms] by blast
  have c2: "\<forall>r mt p1 rest up effs rp err.
          ContentType r = Inr mt \<and> HasPrefix mt ''multipart/''
          \<and> Parts r = NextPart p1 # rest
          \<and> readParts s (PluginCompression r) (Parts r) 0 noUpload [] = Inr (up, effs)
          \<and> requestPlugin s up = Inr rp \<and> Load s rp = Inl err \<longrightarrow>
          (\<exists>b1 f. readBody (PluginCompression r) p1 = Inr b1
             \<and> f = path_Join dir (FileName p1) \<and> filepath_Dir f = Clean dir
             \<and> filepath_Base f = FileName p1 \<and> Path rp = f
             \<and> loadPlugin s r =
                 [MkTempDir dir, CreateFile f, WriteBytes f b1]
                 @ (if windows s then [] else [ChmodFile f 448])
                 @ [CloseFile f, RemoveAllDir (Clean dir),
                    Respond (if ResponseBodyMessage s (FromError s err) = PluginAlreadyLoaded
                             then 409 else 500)
                      (ErrorBody (FromError s err))])"
  proof (intro allI impI)
    fix r :: request and up :: upload and mt p1 rest effs rp err
    assume a: "ContentType r = Inr mt \<and> HasPrefix mt ''multipart/''
          \<and> Parts r = NextPart p1 # rest
          \<and> readParts s (PluginCompression r) (Parts r) 0 noUpload [] = Inr (up, effs)
          \<and> requestPlugin s up = Inr rp \<and> Load s rp = Inl err"
    then have ct: "ContentType r = Inr mt" and mp: "HasPrefix mt ''multipart/''"
      and eof: "readParts s (PluginCompression r) (Parts r) 0 noUpload [] = Inr (up, effs)"
      and rq: "requestPlugin s up = Inr rp" and ld: "Load s rp = Inl err"
      and ps: "Parts r = NextPart p1 # rest"
      by blast+
    from readParts_written[OF eof[unfolded ps]]
    obtain b1 w f where b1: "readBody (PluginCompression r) p1 = Inr b1"
      and wf: "writeFile s (FileName p1) b1 = (w, Inr f)"
      and up: "pluginPath up = f" and effs: "effs = w"
      by auto
    note wn = writeFile_FileName[OF assms wf]
    have path: "Path rp = f"
      using rq up by (auto simp: requestPlugin_def split: sum.splits if_splits)
    have "loadPlugin s r = effs @ [RemoveAllDir (filepath_Dir (Path rp)),
            Respond (if ResponseBodyMessage s (FromError s err) = PluginAlreadyLoaded
                     then 409 else 500)
              (ErrorBody (FromError s err))]"
      using ct mp eof rq ld by (simp add: loadPlugin_def Let_def)
    then have "loadPlugin s r =
                 [MkTempDir dir, CreateFile f, WriteBytes f b1]
                 @ (if windows s then [] else [ChmodFile f 448])
                 @ [CloseFile f, RemoveAllDir (Clean dir),
                    Respond (if ResponseBodyMessage s (FromError s err) = PluginAlreadyLoaded
                             then 409 else 500)
                      (ErrorBody (FromError s err))]"
      using effs wn(5) path wn(3) by simp
    then show "\<exists>b1 f. readBody (PluginCompression r) p1 = Inr b1
             \<and> f = path_Join dir (FileName p1) \<and> filepath_Dir f = Clean dir
             \<and> filepath_Base f = FileName p1 \<and> Path rp = f
             \<and> loadPlugin s r =
                 [MkTempDir dir, CreateFile f, WriteBytes f b1]
                 @ (if windows s then [] else [ChmodFile f 448])
                 @ [CloseFile f, RemoveAllDir (Clean dir),
                    Respond (if ResponseBodyMessage s (FromError s err) = PluginAlreadyLoaded
                             then 409 else 500)
                      (ErrorBody (FromError s err))]"
      using b1 wn(2,3,4) path by blast
  qed
  show ?thesis
    by (intro conjI) (rule c1, rule c2)
qed

theorem loadPlugin_failed_load_removes_tempdir_witness:
  "TempDir failingLoadServer = Inr ''/tmp/123''
   \<and> Create failingLoadServer (Clean ''/tmp/123'') \<noteq> None
   \<and> Create failingLoadServer (path_Join ''/tmp/123'' ''..'') \<noteq> None
   \<and> FileName (filePart ''../x'' ''ELF'') = ''x''
   \<and> writeFile failingLoadServer (FileName (filePart ''../x'' ''ELF'')) ''ELF'' =
       ([MkTempDir ''/tmp/123'', CreateFile ''/tmp/123/x'', WriteBytes ''/tmp/123/x'' ''ELF'',
         ChmodFile ''/tmp/123/x'' 448, CloseFile ''/tmp/123/x''], Inr ''/tmp/123/x'')
   \<and> filepath_Dir ''/tmp/123/x'' = ''/tmp/123''
   \<and> loadPlugin failingLoadServer (uploadOf [filePart ''../x'' ''ELF'']) =
       [MkTempDir ''/tmp/123'', CreateFile ''/tmp/123/x'', WriteBytes ''/tmp/123/x'' ''ELF'',
        ChmodFile ''/tmp/123/x'' 448, CloseFile ''/tmp/123/x'', RemoveAllDir ''/tmp/123'',
        Respond 500 (ErrorBody \<lparr>ErrorMessage = ''plugin load failed'', ErrorFields = []\<rparr>)]"
proof -
  let ?s = failingLoadServer
  let ?p = "filePart ''../x'' ''ELF''"
  let ?r = "uploadOf [?p]"
  let ?up = "\<lparr>pluginPath = ''/tmp/123/x'', signature = None, checkSum = ''ELF''\<rparr>"
  let ?w = "[MkTempDir ''/tmp/123'', CreateFile ''/tmp/123/x'', WriteBytes ''/tmp/123/x'' ''ELF'',
         ChmodFile ''/tmp/123/x'' 448, CloseFile ''/tmp/123/x'']"
  let ?rp = "\<lparr>Path = ''/tmp/123/x'', CheckSum = ''ELF'', Signature = None\<rparr>"
  have t: "TempDir ?s = Inr ''/tmp/123''" by (simp add: failingLoadServer_def emptyServer_def)
  have ne: "''/tmp/123'' \<noteq> []" by simp
  have cl: "Clean ''/tmp/123'' = ''/tmp/123''" by code_simp
  have pj: "path_Join ''/tmp/123'' ''..'' = ''/tmp''" by code_simp
  have d1: "Create ?s (Clean ''/tmp/123'') \<noteq> None"
    unfolding cl by (simp add: failingLoadServer_def emptyServer_def)
  have d2: "Create ?s (path_Join ''/tmp/123'' ''..'') \<noteq> None"
    unfolding pj by (simp add: failingLoadServer_def emptyServer_def)
  have fn: "FileName ?p = ''x''" by code_simp
  have wf: "writeFile ?s (FileName ?p) ''ELF'' = (?w, Inr ''/tmp/123/x'')" by code_simp
  have ct: "ContentType ?r = Inr ''multipart/form-data''" by (simp add: uploadOf_def)
  have mp: "HasPrefix ''multipart/form-data'' ''multipart/''" by code_simp
  have ps: "Parts ?r = NextPart ?p # []" by (simp add: uploadOf_def)
  have eof: "readParts ?s (PluginCompression ?r) (Parts ?r) 0 noUpload [] = Inr (?up, ?w)"
    by code_simp
  have rq: "requestPlugin ?s ?up = Inr ?rp" by code_simp
  have ld: "Load ?s ?rp = Inl ''plugin load failed''"
    by (simp add: failingLoadServer_def)
  have msg: "ResponseBodyMessage ?s (FromError ?s ''plugin load failed'') \<noteq> PluginAlreadyLoaded"
    by code_simp
  have body: "FromError ?s ''plugin load failed''
                = \<lparr>ErrorMessage = ''plugin load failed'', ErrorFields = []\<rparr>"
    by (simp add: failingLoadServer_def emptyServer_def)
  have nw: "\<not> windows ?s" by (simp add: failingLoadServer_def emptyServer_def)
  note inst = loadPlugin_failed_load_removes_tempdir[OF t ne d1 d2]
  from inst have "\<exists>b1 f. readBody (PluginCompression ?r) ?p = Inr b1
             \<and> f = path_Join ''/tmp/123'' (FileName ?p)
             \<and> filepath_Dir f = Clean ''/tmp/123''
             \<and> filepath_Base f = FileName ?p \<and> Path ?rp = f
             \<and> loadPlugin ?s ?r =
                 [MkTempDir ''/tmp/123'', CreateFile f, WriteBytes f b1]
                 @ (if windows ?s then [] else [ChmodFile f 448])
                 @ [CloseFile f, RemoveAllDir (Clean ''/tmp/123''),
                    Respond (if ResponseBodyMessage ?s (FromError ?s ''plugin load failed'')
                                  = PluginAlreadyLoaded
                             then 409 else 500)
                      (ErrorBody (FromError ?s ''plugin load failed''))]"
    using ct mp ps eof rq ld by blast
  then obtain b1 where rb: "readBody (PluginCompression ?r) ?p = Inr b1"
    and dir: "filepath_Dir ''/tmp/123/x'' = Clean ''/tmp/123''"
    and lp: "loadPlugin ?s ?r =
                 [MkTempDir ''/tmp/123'', CreateFile ''/tmp/123/x'', WriteBytes ''/tmp/123/x'' b1]
                 @ (if windows ?s then [] else [ChmodFile ''/tmp/123/x'' 448])
                 @ [CloseFile ''/tmp/123/x'', RemoveAllDir (Clean ''/tmp/123''),
                    Respond (if ResponseBodyMessage ?s (FromError ?s ''plugin load failed'')
                                  = PluginAlreadyLoaded
                             then 409 else 500)
                      (ErrorBody (FromError ?s ''plugin load failed''))]"
    by auto
  have "readBody (PluginCompression ?r) ?p = Inr ''ELF''" by code_simp
  then have b1: "b1 = ''ELF''" using rb by simp
  have l: "loadPlugin ?s ?r =
       [MkTempDir ''/tmp/123'', CreateFile ''/tmp/123/x'', WriteBytes ''/tmp/123/x'' ''ELF'',
        ChmodFile ''/tmp/123/x'' 448, CloseFile ''/tmp/123/x'', RemoveAllDir ''/tmp/123'',
        Respond 500 (ErrorBody \<lparr>ErrorMessage = ''plugin load failed'', ErrorFields = []\<rparr>)]"
    using lp b1 nw msg body cl by simp
  show ?thesis
    using t d1 d2 fn wf dir cl l by simp
qed

text \<open>
  C4, at a swap that fails because the plugin is already loaded. In the failure branch
  the handler makes the body from the nil \<open>err\<close> and not from the failure of
  \<open>SwapPlugins\<close>: whatever the server, it does the same for any two failures, so it
  cannot answer 409 for one and 500 for another. On a server whose \<open>FromError\<close> reads
  the message of its argument, an upload in order whose swap fails with
  \<open>plugin is already loaded\<close> ends in a panic after the directory is removed, with
  neither a 409 nor a 500.
\<close>

theorem swapPlugins_already_loaded_panics:
  "swapPlugins (s\<lparr>SwapPlugins := \<lambda>_ _. Inl se\<rparr>) r
     = swapPlugins (s\<lparr>SwapPlugins := \<lambda>_ _. Inl se'\<rparr>) r
   \<and> swapPlugins
       (emptyServer\<lparr>SwapPlugins :=
          \<lambda>_ _. Inl \<lparr>se_message = PluginAlreadyLoaded, se_fields = []\<rparr>\<rparr>)
       (uploadOf [filePart ''snap-collector-mock2'' ''ELF'']) =
     [MkTempDir ''/tmp/123'', CreateFile ''/tmp/123/snap-collector-mock2'',
      WriteBytes ''/tmp/123/snap-collector-mock2'' ''ELF'',
      ChmodFile ''/tmp/123/snap-collector-mock2'' 448,
      CloseFile ''/tmp/123/snap-collector-mock2'',
      RemoveAllDir ''/tmp/123'', Panic NilPointerDereference]"
proof
  show "swapPlugins (s\<lparr>SwapPlugins := \<lambda>_ _. Inl se\<rparr>) r
     = swapPlugins (s\<lparr>SwapPlugins := \<lambda>_ _. Inl se'\<rparr>) r"
    by (rule swapPlugins_failure_not_read)
  show "swapPlugins
       (emptyServer\<lparr>SwapPlugins :=
          \<lambda>_ _. Inl \<lparr>se_message = PluginAlreadyLoaded, se_fields = []\<rparr>\<rparr>)
       (uploadOf [filePart ''snap-collector-mock2'' ''ELF'']) =
     [MkTempDir ''/tmp/123'', CreateFile ''/tmp/123/snap-collector-mock2'',
      WriteBytes ''/tmp/123/snap-collector-mock2'' ''ELF'',
      ChmodFile ''/tmp/123/snap-collector-mock2'' 448,
      CloseFile ''/tmp/123/snap-collector-mock2'',
      RemoveAllDir ''/tmp/123'', Panic NilPointerDereference]"
    by code_simp
qed

text \<open>
  C5. On a host with at least one CPU, \<open>setMaxProcs\<close> leaves \<open>GOMAXPROCS\<close> at 1 for a
  request of 0 or less, at the request when it is at most the number of CPUs, and at the
  number of CPUs otherwise. The request is the value of the flag \<open>max-procs\<close>, which is 1
  when neither the command line nor the variable \<open>GOMAXPROCS\<close> gives one; a daemon that
  serves runs with the setting made from it.
\<close>

theorem setMaxProcs_clamps:
  "(1 \<le> NumCPU r0 \<longrightarrow>
      maxprocs (snd (setMaxProcs n r0)) =
        (if n \<le> 0 then 1 else if n \<le> NumCPU r0 then n else NumCPU r0))
   \<and> (cmdInt ctx (IntName flMaxProcs) = None \<and> envInt ctx (IntEnvVar flMaxProcs) = None
        \<longrightarrow> ctx_Int ctx flMaxProcs = 1)
   \<and> (action m ctx = Serving d
        \<longrightarrow> go_runtime d = snd (setMaxProcs (ctx_Int ctx flMaxProcs) (boot_runtime m)))"
proof -
  have c1: "1 \<le> NumCPU r0 \<longrightarrow>
      maxprocs (snd (setMaxProcs n r0)) =
        (if n \<le> 0 then 1 else if n \<le> NumCPU r0 then n else NumCPU r0)"
    using setMaxProcs_maxprocs by blast
  have c2: "cmdInt ctx (IntName flMaxProcs) = None \<and> envInt ctx (IntEnvVar flMaxProcs) = None
        \<longrightarrow> ctx_Int ctx flMaxProcs = 1"
    by (simp add: ctx_Int_def flMaxProcs_def)
  have c3: "action m ctx = Serving d
        \<longrightarrow> go_runtime d = snd (setMaxProcs (ctx_Int ctx flMaxProcs) (boot_runtime m))"
    using action_serving(3) by blast
  show ?thesis
    by (intro conjI) (rule c1, rule c2, rule c3)
qed

theorem setMaxProcs_clamps_witness:
  "maxprocs (snd (setMaxProcs 8 fourCores)) = 4
   \<and> maxprocs (snd (setMaxProcs 2 fourCores)) = 2
   \<and> maxprocs (snd (setMaxProcs (- 1) fourCores)) = 1
   \<and> ctx_Int trustOff flMaxProcs = 1
   \<and> maxprocs (snd (setMaxProcs (ctx_Int trustOff flMaxProcs) fourCores)) = 1"
proof -
  have h: "1 \<le> NumCPU fourCores" by (simp add: fourCores_def)
  have n: "NumCPU fourCores = 4" by (simp add: fourCores_def)
  have u: "cmdInt trustOff (IntName flMaxProcs) = None \<and> envInt trustOff (IntEnvVar flMaxProcs) = None"
    by (simp add: trustOff_def flMaxProcs_def flPluginTrust_def)
  have d: "ctx_Int trustOff flMaxProcs = 1"
    using setMaxProcs_clamps[of fourCores 0 trustOff] u by blast
  show ?thesis
    using setMaxProcs_clamps[of fourCores 8] setMaxProcs_clamps[of fourCores 2]
      setMaxProcs_clamps[of fourCores "- 1"] setMaxProcs_clamps[of fourCores 1] h n d
    by simp
qed

text \<open>
  C6, as amended. For every prefix of length at least 2 that ends neither in \<open>/\<close> nor in
  \<open>/*\<close>, the inputs \<open>p\<close>, \<open>p/\<close> and \<open>p/*\<close> are normalized to the same query
  \<open>p/*\<close>, so that \<open>listMetrics\<close> does the same on the three; the empty input is
  normalized to \<open>/*\<close>.
\<close>

theorem listMetrics_wildcard_forms:
  "(2 \<le> length p \<and> \<not> HasSuffix p ''/'' \<and> \<not> HasSuffix p ''/*'' \<longrightarrow>
      normalizeNs p = Inr (p @ ''/*'')
    \<and> normalizeNs (p @ ''/'') = Inr (p @ ''/*'')
    \<and> normalizeNs (p @ ''/*'') = Inr (p @ ''/*'')
    \<and> listMetrics FetchMetrics p ver verbose = listMetrics FetchMetrics (p @ ''/*'') ver verbose
    \<and> listMetrics FetchMetrics (p @ ''/'') ver verbose
        = listMetrics FetchMetrics (p @ ''/*'') ver verbose)
   \<and> normalizeNs [] = Inr ''/*''"
proof -
  have c1: "2 \<le> length p \<and> \<not> HasSuffix p ''/'' \<and> \<not> HasSuffix p ''/*'' \<longrightarrow>
      normalizeNs p = Inr (p @ ''/*'')
    \<and> normalizeNs (p @ ''/'') = Inr (p @ ''/*'')
    \<and> normalizeNs (p @ ''/*'') = Inr (p @ ''/*'')
    \<and> listMetrics FetchMetrics p ver verbose = listMetrics FetchMetrics (p @ ''/*'') ver verbose
    \<and> listMetrics FetchMetrics (p @ ''/'') ver verbose
        = listMetrics FetchMetrics (p @ ''/*'') ver verbose"
  proof
    assume a: "2 \<le> length p \<and> \<not> HasSuffix p ''/'' \<and> \<not> HasSuffix p ''/*''"
    then have bare: "normalizeNs p = Inr (p @ ''/*'')" using normalizeNs_bare by blast
    have slash: "normalizeNs (p @ ''/'') = Inr (p @ ''/*'')"
      using a normalizeNs_slash[of p] by simp
    have wild: "normalizeNs (p @ ''/*'') = Inr (p @ ''/*'')" by (rule normalizeNs_wild)
    show "normalizeNs p = Inr (p @ ''/*'')
      \<and> normalizeNs (p @ ''/'') = Inr (p @ ''/*'')
      \<and> normalizeNs (p @ ''/*'') = Inr (p @ ''/*'')
      \<and> listMetrics FetchMetrics p ver verbose = listMetrics FetchMetrics (p @ ''/*'') ver verbose
      \<and> listMetrics FetchMetrics (p @ ''/'') ver verbose
          = listMetrics FetchMetrics (p @ ''/*'') ver verbose"
      using bare slash wild by (simp add: listMetrics_def)
  qed
  have c2: "normalizeNs [] = Inr ''/*''" by (simp add: normalizeNs_def)
  show ?thesis
    by (intro conjI) (rule c1, rule c2)
qed

theorem listMetrics_wildcard_forms_witness:
  "normalizeNs ''/a'' = Inr ''/a/*'' \<and> normalizeNs ''/a/'' = Inr ''/a/*''
   \<and> normalizeNs ''/a/*'' = Inr ''/a/*''
   \<and> listMetrics (\<lambda>ns ver. Inl ns) ''/a'' 0 False = LM_Exit1 ''/a/*''
   \<and> listMetrics (\<lambda>ns ver. Inl ns) ''/a/'' 0 False = LM_Exit1 ''/a/*''"
proof -
  have h: "2 \<le> length ''/a'' \<and> \<not> HasSuffix ''/a'' ''/'' \<and> \<not> HasSuffix ''/a'' ''/*''"
    by (simp add: HasSuffix_def)
  have e: "listMetrics (\<lambda>ns ver. Inl ns) (''/a'' @ ''/*'') 0 False = LM_Exit1 ''/a/*''"
    by (simp add: listMetrics_def normalizeNs_def slice_from_def fetchAndPrint_def)
  show ?thesis
    using listMetrics_wildcard_forms[of "''/a''" "\<lambda>ns ver. Inl ns" 0 False] h e by simp
qed

text \<open>
  The prefix \<open>/a/\<close> has length 3; it is normalized to \<open>/a/*\<close>, which is not the prefix
  followed by \<open>/*\<close>, and the form with a further \<open>/\<close> is normalized to another query,
  \<open>/a//*\<close>, so that the two forms are not fetched alike.
\<close>

theorem normalizeNs_prefix_ending_in_slash:
  "2 \<le> length ''/a/''
   \<and> normalizeNs ''/a/'' = Inr ''/a/*''
   \<and> normalizeNs ''/a/'' \<noteq> Inr (''/a/'' @ ''/*'')
   \<and> normalizeNs (''/a/'' @ ''/'') = Inr ''/a//*''
   \<and> listMetrics (\<lambda>ns ver. Inl ns) ''/a/'' 0 False
       \<noteq> listMetrics (\<lambda>ns ver. Inl ns) (''/a/'' @ ''/'') 0 False"
  by (simp add: listMetrics_def normalizeNs_def slice_from_def fetchAndPrint_def)

text \<open>
  C7. For a metric marked dynamic whose dynamic elements each declare the index of an
  existing path segment, the rendered namespace is the namespace with each segment
  replaced by the bracketed name of the element that declares its index (the last one, if
  several do), the other segments and the piece before the first slash unchanged, joined
  with slashes again. A metric that is not marked dynamic is rendered as its namespace.
\<close>

theorem getNamespace_renders_dynamic:
  "(Dynamic mt \<and> (\<forall>v\<in>set (DynamicElements mt).
                    0 \<le> Index v \<and> Index v < int (length (segments (Namespace mt))))
     \<longrightarrow> getNamespace mt =
          Inr (Join (hd (Split (Namespace mt) CHR ''/'')
                      # map (\<lambda>i. renderedSegment (DynamicElements mt) i
                                    (segments (Namespace mt) ! i))
                          [0..<length (segments (Namespace mt))]) ''/''))
   \<and> (\<not> Dynamic mt \<longrightarrow> getNamespace mt = Inr (Namespace mt))"
proof -
  have c1: "Dynamic mt \<and> (\<forall>v\<in>set (DynamicElements mt).
                    0 \<le> Index v \<and> Index v < int (length (segments (Namespace mt))))
     \<longrightarrow> getNamespace mt =
          Inr (Join (hd (Split (Namespace mt) CHR ''/'')
                      # map (\<lambda>i. renderedSegment (DynamicElements mt) i
                                    (segments (Namespace mt) ! i))
                          [0..<length (segments (Namespace mt))]) ''/'')"
    using getNamespace_segments by blast
  have c2: "\<not> Dynamic mt \<longrightarrow> getNamespace mt = Inr (Namespace mt)"
    by (simp add: getNamespace_def)
  show ?thesis
    by (intro conjI) (rule c1, rule c2)
qed

theorem getNamespace_renders_dynamic_witness:
  "getNamespace mockBaz = Inr ''/intel/mock/[host]/baz''
   \<and> getNamespace (mockBaz\<lparr>Dynamic := False\<rparr>) = Inr ''/intel/mock/host/baz''"
proof -
  have segs: "segments (Namespace mockBaz) = [''intel'', ''mock'', ''host'', ''baz'']"
    by code_simp
  have h: "Dynamic mockBaz \<and> (\<forall>v\<in>set (DynamicElements mockBaz).
              0 \<le> Index v \<and> Index v < int (length (segments (Namespace mockBaz))))"
    unfolding segs by (simp add: mockBaz_def)
  have r: "Join (hd (Split (Namespace mockBaz) CHR ''/'')
                      # map (\<lambda>i. renderedSegment (DynamicElements mockBaz) i
                                    (segments (Namespace mockBaz) ! i))
                          [0..<length (segments (Namespace mockBaz))]) ''/''
           = ''/intel/mock/[host]/baz''"
    by code_simp
  have n: "\<not> Dynamic (mockBaz\<lparr>Dynamic := False\<rparr>)" by simp
  have ns: "Namespace (mockBaz\<lparr>Dynamic := False\<rparr>) = ''/intel/mock/host/baz''"
    by (simp add: mockBaz_def)
  show ?thesis
    using getNamespace_renders_dynamic[of mockBaz] h r
      getNamespace_renders_dynamic[of "mockBaz\<lparr>Dynamic := False\<rparr>"] n ns
    by simp
qed

text \<open>
  C8. When the log level is outside 1 to 5, or the plugin trust level is outside 0 to 2,
  or the trust level is above 0 and the keyring paths are empty, \<open>action\<close> ends in
  \<open>log.Fatal\<close>, on every machine: the daemon does not get to serve.
\<close>

theorem action_fatal_on_bad_settings:
  "ctx_Int ctx flLogLevel < 1 \<or> ctx_Int ctx flLogLevel > 5
   \<or> ctx_Int ctx flPluginTrust < 0 \<or> ctx_Int ctx flPluginTrust > 2
   \<or> (ctx_Int ctx flPluginTrust > 0 \<and> ctx_String ctx flkeyringPaths = [])
   \<Longrightarrow> \<exists>msg. action m ctx = Fatal msg"
proof -
  assume a: "ctx_Int ctx flLogLevel < 1 \<or> ctx_Int ctx flLogLevel > 5
   \<or> ctx_Int ctx flPluginTrust < 0 \<or> ctx_Int ctx flPluginTrust > 2
   \<or> (ctx_Int ctx flPluginTrust > 0 \<and> ctx_String ctx flkeyringPaths = [])"
  show "\<exists>msg. action m ctx = Fatal msg"
  proof (cases "validateLevelSettings (ctx_Int ctx flLogLevel) (ctx_Int ctx flPluginTrust)")
    case (Some msg)
    then show ?thesis by (rule action_bad_levels)
  next
    case None
    then have "ctx_Int ctx flPluginTrust > 0 \<and> ctx_String ctx flkeyringPaths = []"
      using a by (auto simp: validateLevelSettings_def split: if_splits)
    then show ?thesis using action_no_keyring by blast
  qed
qed

theorem action_fatal_on_bad_settings_witness:
  "action quietMachine noFlags = Fatal ''need keyring file when trust is on (--keyring-file or -k)''
   \<and> action quietMachine (trustOff\<lparr>cmdInt := [IntName flLogLevel \<mapsto> 6]\<rparr>)
       = Fatal ''log level was invalid (needs: 1-5)''"
proof -
  let ?c = "trustOff\<lparr>cmdInt := [IntName flLogLevel \<mapsto> 6]\<rparr>"
  have h1: "ctx_Int noFlags flPluginTrust > 0 \<and> ctx_String noFlags flkeyringPaths = []"
    by (simp add: ctx_Int_def ctx_String_def noFlags_def flPluginTrust_def flkeyringPaths_def)
  have h2: "ctx_Int ?c flLogLevel > 5"
    by (simp add: ctx_Int_def trustOff_def flLogLevel_def)
  obtain m1 where m1: "action quietMachine noFlags = Fatal m1"
    using action_fatal_on_bad_settings[of noFlags quietMachine] h1 by blast
  obtain m2 where m2: "action quietMachine ?c = Fatal m2"
    using action_fatal_on_bad_settings[of ?c quietMachine] h2 by blast
  have e1: "action quietMachine noFlags
              = Fatal ''need keyring file when trust is on (--keyring-file or -k)''"
    by code_simp
  have e2: "action quietMachine ?c = Fatal ''log level was invalid (needs: 1-5)''"
    by code_simp
  show ?thesis using m1 m2 e1 e2 by simp
qed

text \<open>
  C9. The flag \<open>max-running-plugins\<close> has the value 3 and the flag \<open>cache-expiration\<close>
  the value \<open>500ms\<close>. A daemon that serves has built its scheduler with queues of 25 and
  pools of 4 workers for collecting, publishing and processing, and, when neither the
  command line nor the environment sets the two flags, its control module with at most 3
  running plugins and the cache expiration parsed from \<open>500ms\<close>.
\<close>

theorem snapd_defaults:
  "IntValue flNumberOfPLs = 3 \<and> StringValue flCache = ''500ms''
   \<and> defaultQueueSize = 25 \<and> defaultPoolSize = 4
   \<and> (action m ctx = Serving d \<longrightarrow>
        scheduler_opts d =
          [CollectQSizeOption 25, CollectWkrSizeOption 4,
           PublishQSizeOption 25, PublishWkrSizeOption 4,
           ProcessQSizeOption 25, ProcessWkrSizeOption 4])
   \<and> (action m ctx = Serving d
        \<and> cmdInt ctx (IntName flNumberOfPLs) = None \<and> envInt ctx (IntEnvVar flNumberOfPLs) = None
        \<and> cmdString ctx (StringName flCache) = None
        \<and> envString ctx (StringEnvVar flCache) = None
       \<longrightarrow> (\<exists>cache cfg. ParseDuration m ''500ms'' = Inr cache
              \<and> control_opts d = MaxRunningPlugins 3 # CacheExpiration cache # cfg))"
proof -
  have c1: "IntValue flNumberOfPLs = 3" by (simp add: flNumberOfPLs_def)
  have c2: "StringValue flCache = ''500ms''" by (simp add: flCache_def)
  have c3: "defaultQueueSize = 25" by (simp add: defaultQueueSize_def)
  have c4: "defaultPoolSize = 4" by (simp add: defaultPoolSize_def)
  have c5: "action m ctx = Serving d \<longrightarrow>
        scheduler_opts d =
          [CollectQSizeOption 25, CollectWkrSizeOption 4,
           PublishQSizeOption 25, PublishWkrSizeOption 4,
           ProcessQSizeOption 25, ProcessWkrSizeOption 4]"
    using action_serving(1) by blast
  have c6: "action m ctx = Serving d
        \<and> cmdInt ctx (IntName flNumberOfPLs) = None \<and> envInt ctx (IntEnvVar flNumberOfPLs) = None
        \<and> cmdString ctx (StringName flCache) = None
        \<and> envString ctx (StringEnvVar flCache) = None
       \<longrightarrow> (\<exists>cache cfg. ParseDuration m ''500ms'' = Inr cache
              \<and> control_opts d = MaxRunningPlugins 3 # CacheExpiration cache # cfg)"
  proof
    assume a: "action m ctx = Serving d
        \<and> cmdInt ctx (IntName flNumberOfPLs) = None \<and> envInt ctx (IntEnvVar flNumberOfPLs) = None
        \<and> cmdString ctx (StringName flCache) = None
        \<and> envString ctx (StringEnvVar flCache) = None"
    then have n: "ctx_Int ctx flNumberOfPLs = 3"
      by (simp add: ctx_Int_def flNumberOfPLs_def)
    from a have s: "ctx_String ctx flCache = ''500ms''"
      by (simp add: ctx_String_def flCache_def)
    from a action_serving(2)[of m ctx d] n s
    show "\<exists>cache cfg. ParseDuration m ''500ms'' = Inr cache
              \<and> control_opts d = MaxRunningPlugins 3 # CacheExpiration cache # cfg"
      by simp
  qed
  show ?thesis
    by (intro conjI) (rule c1, rule c2, rule c3, rule c4, rule c5, rule c6)
qed

theorem snapd_defaults_witness:
  "action quietMachine trustOff =
     Serving
       \<lparr>control_opts = [MaxRunningPlugins 3, CacheExpiration 500000000],
        scheduler_opts =
          [CollectQSizeOption 25, CollectWkrSizeOption 4,
           PublishQSizeOption 25, PublishWkrSizeOption 4,
           ProcessQSizeOption 25, ProcessWkrSizeOption 4],
        core_modules = [Control, Scheduler],
        trust_level = 0,
        keyring_files = [],
        autodiscover_paths = [],
        autoloaded = [],
        api_port = Some 8181,
        log_level_set = WarnLevel,
        go_runtime = \<lparr>NumCPU = 4, maxprocs = 1\<rparr>\<rparr>"
proof -
  let ?d = "\<lparr>control_opts = [MaxRunningPlugins 3, CacheExpiration 500000000],
        scheduler_opts =
          [CollectQSizeOption 25, CollectWkrSizeOption 4,
           PublishQSizeOption 25, PublishWkrSizeOption 4,
           ProcessQSizeOption 25, ProcessWkrSizeOption 4],
        core_modules = [Control, Scheduler],
        trust_level = 0,
        keyring_files = [],
        autodiscover_paths = [],
        autoloaded = [],
        api_port = Some 8181,
        log_level_set = WarnLevel,
        go_runtime = \<lparr>NumCPU = 4, maxprocs = 1\<rparr>\<rparr>"
  have e: "action quietMachine trustOff = Serving ?d"
    by code_simp
  have u: "cmdInt trustOff (IntName flNumberOfPLs) = None
        \<and> envInt trustOff (IntEnvVar flNumberOfPLs) = None
        \<and> cmdString trustOff (StringName flCache) = None
        \<and> envString trustOff (StringEnvVar flCache) = None"
    by (simp add: trustOff_def flNumberOfPLs_def flPluginTrust_def)
  from snapd_defaults[of quietMachine trustOff ?d] e u
  have "scheduler_opts ?d =
          [CollectQSizeOption 25, CollectWkrSizeOption 4,
           PublishQSizeOption 25, PublishWkrSizeOption 4,
           ProcessQSizeOption 25, ProcessWkrSizeOption 4]"
    by blast
  then show ?thesis using e by simp
qed

text \<open>
  C10. For an argument of length 1 the normalization panics on the slice expression
  \<open>ns[len(ns)-2:]\<close>, whose lower bound is \<open>-1\<close>, and so does \<open>listMetrics\<close>,
  whatever the client would return. For the empty argument and for every argument of
  length at least 2 the normalization returns a namespace \<open>q\<close>, the argument with the
  wildcard completed, and \<open>listMetrics\<close> fetches with it: when
  \<open>FetchMetrics q ver\<close> fails \<open>listMetrics\<close> exits with that error, and when it
  returns a catalog \<open>listMetrics\<close> prints the rows of that catalog.
\<close>

theorem normalizeNs_panics_on_length_one:
  "(length ns = 1 \<longrightarrow>
      slice_from ns (int (length ns) - 2) = Inl SliceBoundsOutOfRange
      \<and> normalizeNs ns = Inl SliceBoundsOutOfRange
      \<and> listMetrics FetchMetrics ns ver verbose = LM_Panic SliceBoundsOutOfRange)
   \<and> (length ns \<noteq> 1 \<longrightarrow>
        (\<exists>q. normalizeNs ns = Inr q
            \<and> q = (if ns = [] then ''/*''
                    else if HasSuffix ns ''/*'' then ns
                    else if HasSuffix ns ''/'' then ns @ ''*''
                    else ns @ ''/*'')
            \<and> (\<forall>err. FetchMetrics q ver = Inl err \<longrightarrow>
                   listMetrics FetchMetrics ns ver verbose = LM_Exit1 err)
            \<and> (\<forall>catalog. FetchMetrics q ver = Inr catalog \<and> \<not> verbose \<longrightarrow>
                   listMetrics FetchMetrics ns ver verbose
                     = LM_Printed (BriefTable (briefRows catalog)))
            \<and> (\<forall>catalog. FetchMetrics q ver = Inr catalog \<and> verbose \<longrightarrow>
                   listMetrics FetchMetrics ns ver verbose
                     = (case verboseRows catalog of
                          Inl p \<Rightarrow> LM_Panic p
                        | Inr rows \<Rightarrow> LM_Printed (VerboseTable rows)))))"
proof -
  have c1: "length ns = 1 \<longrightarrow>
      slice_from ns (int (length ns) - 2) = Inl SliceBoundsOutOfRange
      \<and> normalizeNs ns = Inl SliceBoundsOutOfRange
      \<and> listMetrics FetchMetrics ns ver verbose = LM_Panic SliceBoundsOutOfRange"
    using normalizeNs_len1[of ns] by (simp add: listMetrics_def slice_from_def)
  have c2: "length ns \<noteq> 1 \<longrightarrow>
        (\<exists>q. normalizeNs ns = Inr q
            \<and> q = (if ns = [] then ''/*''
                    else if HasSuffix ns ''/*'' then ns
                    else if HasSuffix ns ''/'' then ns @ ''*''
                    else ns @ ''/*'')
            \<and> (\<forall>err. FetchMetrics q ver = Inl err \<longrightarrow>
                   listMetrics FetchMetrics ns ver verbose = LM_Exit1 err)
            \<and> (\<forall>catalog. FetchMetrics q ver = Inr catalog \<and> \<not> verbose \<longrightarrow>
                   listMetrics FetchMetrics ns ver verbose
                     = LM_Printed (BriefTable (briefRows catalog)))
            \<and> (\<forall>catalog. FetchMetrics q ver = Inr catalog \<and> verbose \<longrightarrow>
                   listMetrics FetchMetrics ns ver verbose
                     = (case verboseRows catalog of
                          Inl p \<Rightarrow> LM_Panic p
                        | Inr rows \<Rightarrow> LM_Printed (VerboseTable rows))))"
  proof
    assume len: "length ns \<noteq> 1"
    define q where "q = (if ns = [] then ''/*''
                    else if HasSuffix ns ''/*'' then ns
                    else if HasSuffix ns ''/'' then ns @ ''*''
                    else ns @ ''/*'')"
    have nq: "normalizeNs ns = Inr q"
    proof (cases "ns = []")
      case True
      then show ?thesis by (simp add: normalizeNs_def q_def)
    next
      case False
      then have "length ns \<noteq> 0" by simp
      then have l2: "2 \<le> length ns" using len by arith
      have s2: "slice_from ns (int (length ns) - 2) = Inr (drop (length ns - 2) ns)"
        using l2 False by (simp add: slice_from_def nat_diff_distrib')
      have s1: "slice_from ns (int (length ns) - 1) = Inr (drop (length ns - 1) ns)"
        using l2 False by (simp add: slice_from_def nat_diff_distrib')
      have h2: "HasSuffix ns ''/*'' = (drop (length ns - 2) ns = ''/*'')"
        using l2 False by (simp add: HasSuffix_def numeral_2_eq_2)
      have h1: "HasSuffix ns ''/'' = (drop (length ns - 1) ns = ''/'')"
        using l2 False by (simp add: HasSuffix_def)
      show ?thesis
        using False s1 s2 h1 h2 by (simp add: normalizeNs_def q_def)
    qed
    have lm: "listMetrics FetchMetrics ns ver verbose = fetchAndPrint FetchMetrics q ver verbose"
      using nq by (simp add: listMetrics_def)
    have e: "\<forall>err. FetchMetrics q ver = Inl err \<longrightarrow>
                   listMetrics FetchMetrics ns ver verbose = LM_Exit1 err"
      unfolding lm by (simp add: fetchAndPrint_def)
    have b: "\<forall>catalog. FetchMetrics q ver = Inr catalog \<and> \<not> verbose \<longrightarrow>
                   listMetrics FetchMetrics ns ver verbose
                     = LM_Printed (BriefTable (briefRows catalog))"
      unfolding lm by (simp add: fetchAndPrint_def)
    have v: "\<forall>catalog. FetchMetrics q ver = Inr catalog \<and> verbose \<longrightarrow>
                   listMetrics FetchMetrics ns ver verbose
                     = (case verboseRows catalog of
                          Inl p \<Rightarrow> LM_Panic p
                        | Inr rows \<Rightarrow> LM_Printed (VerboseTable rows))"
      unfolding lm by (simp add: fetchAndPrint_def)
    show "\<exists>q. normalizeNs ns = Inr q
            \<and> q = (if ns = [] then ''/*''
                    else if HasSuffix ns ''/*'' then ns
                    else if HasSuffix ns ''/'' then ns @ ''*''
                    else ns @ ''/*'')
            \<and> (\<forall>err. FetchMetrics q ver = Inl err \<longrightarrow>
                   listMetrics FetchMetrics ns ver verbose = LM_Exit1 err)
            \<and> (\<forall>catalog. FetchMetrics q ver = Inr catalog \<and> \<not> verbose \<longrightarrow>
                   listMetrics FetchMetrics ns ver verbose
                     = LM_Printed (BriefTable (briefRows catalog)))
            \<and> (\<forall>catalog. FetchMetrics q ver = Inr catalog \<and> verbose \<longrightarrow>
                   listMetrics FetchMetrics ns ver verbose
                     = (case verboseRows catalog of
                          Inl p \<Rightarrow> LM_Panic p
                        | Inr rows \<Rightarrow> LM_Printed (VerboseTable rows)))"
      using nq e b v q_def by blast
  qed
  show ?thesis
    by (intro conjI) (rule c1, rule c2)
qed

theorem normalizeNs_panics_on_length_one_witness:
  "normalizeNs ''/'' = Inl SliceBoundsOutOfRange
   \<and> listMetrics (\<lambda>q ver. Inl (''no metrics for '' @ q)) ''/'' 0 False
       = LM_Panic SliceBoundsOutOfRange
   \<and> listMetrics (\<lambda>q ver. Inl (''no metrics for '' @ q)) [] 0 False
       = LM_Exit1 ''no metrics for /*''
   \<and> listMetrics (\<lambda>q ver. Inl (''no metrics for '' @ q)) ''/a'' 0 False
       = LM_Exit1 ''no metrics for /a/*''
   \<and> listMetrics (\<lambda>q ver. if q = ''/intel/*'' \<and> ver = 2 then Inr [mockBaz] else Inl q)
        ''/intel'' 2 False
       = LM_Printed (BriefTable [(''/intel/mock/host/baz'', ''2'')])
   \<and> listMetrics (\<lambda>q ver. if q = ''/intel/*'' \<and> ver = 2 then Inr [mockBaz] else Inl q)
        ''/intel/'' 2 True
       = LM_Printed (VerboseTable
           [(''/intel/mock/[host]/baz'', 2, ''mock unit'', ''mock description'')])"
proof -
  let ?failing = "\<lambda>q (ver::int). (Inl (''no metrics for '' @ q) :: error + Metric list)"
  let ?mock = "\<lambda>q (ver::int). if q = ''/intel/*'' \<and> ver = 2 then Inr [mockBaz] else Inl q"
  have h1: "length ''/'' = 1" by simp
  have h2: "length ([] :: string) \<noteq> 1" "length ''/a'' \<noteq> 1" "length ''/intel'' \<noteq> 1"
    "length ''/intel/'' \<noteq> 1" by simp_all
  have s: "\<not> HasSuffix ''/a'' ''/*''" "\<not> HasSuffix ''/a'' ''/''"
    "\<not> HasSuffix ''/intel'' ''/*''" "\<not> HasSuffix ''/intel'' ''/''"
    "\<not> HasSuffix ''/intel/'' ''/*''" "HasSuffix ''/intel/'' ''/''"
    by (simp_all add: HasSuffix_def)
  have br: "briefRows [mockBaz] = [(''/intel/mock/host/baz'', ''2'')]" by code_simp
  have vr: "verboseRows [mockBaz]
      = Inr [(''/intel/mock/[host]/baz'', 2, ''mock unit'', ''mock description'')]"
    by code_simp
  have p: "listMetrics ?failing ''/'' 0 False = LM_Panic SliceBoundsOutOfRange
           \<and> normalizeNs ''/'' = Inl SliceBoundsOutOfRange"
    using normalizeNs_panics_on_length_one[of "''/''" ?failing 0 False] h1 by blast
  have e0: "listMetrics ?failing [] 0 False = LM_Exit1 ''no metrics for /*''"
    using normalizeNs_panics_on_length_one[of "[]" ?failing 0 False] h2 by simp
  have e1: "listMetrics ?failing ''/a'' 0 False = LM_Exit1 ''no metrics for /a/*''"
    using normalizeNs_panics_on_length_one[of "''/a''" ?failing 0 False] h2 s by simp
  have b1: "listMetrics ?mock ''/intel'' 2 False
       = LM_Printed (BriefTable [(''/intel/mock/host/baz'', ''2'')])"
    using normalizeNs_panics_on_length_one[of "''/intel''" ?mock 2 False] h2 s br by simp
  have v1: "listMetrics ?mock ''/intel/'' 2 True
       = LM_Printed (VerboseTable
           [(''/intel/mock/[host]/baz'', 2, ''mock unit'', ''mock description'')])"
    using normalizeNs_panics_on_length_one[of "''/intel/''" ?mock 2 True] h2 s vr by simp
  show ?thesis using p e0 e1 b1 v1 by simp
qed

end
